theory Spec2Isabelle
  imports Main "HOL-Library.Word" "HOL-Library.Sublist"
begin

unbundle bit_operations_syntax

section \<open>Go primitives used by the program\<close>

text \<open>
  A Go \<^verbatim>\<open>string\<close> is a sequence of bytes; \<^typ>\<open>string\<close> (a list of 8-bit characters)
  is the same thing.  Go's \<^verbatim>\<open>int\<close> is taken to be 64 bits wide (the size it has on every
  64-bit platform); it is modelled as \<^typ>\<open>int\<close> with the wrap-around written out where a
  value is incremented without a bound.
\<close>

type_synonym byte = "8 word"

definition wrap64 :: "int \<Rightarrow> int" where
  "wrap64 x = (x + 2 ^ 63) mod 2 ^ 64 - 2 ^ 63"

text \<open>Go's \<^verbatim>\<open>/\<close> and \<^verbatim>\<open>%\<close> on integers truncate towards zero.\<close>

definition go_quo :: "int \<Rightarrow> int \<Rightarrow> int" where
  "go_quo a b = sgn a * sgn b * (\<bar>a\<bar> div \<bar>b\<bar>)"

definition go_rem :: "int \<Rightarrow> int \<Rightarrow> int" where
  "go_rem a b = sgn a * (\<bar>a\<bar> mod \<bar>b\<bar>)"

text \<open>\<^verbatim>\<open>strconv.Itoa\<close>: the decimal form of an integer, with a minus sign when negative.\<close>

definition digit_char :: "nat \<Rightarrow> char" where
  "digit_char d = ''0123456789'' ! (d mod 10)"

fun digits10 :: "nat \<Rightarrow> string" where
  "digits10 n = (if n < 10 then [digit_char n] else digits10 (n div 10) @ [digit_char (n mod 10)])"

declare digits10.simps [simp del]

definition Itoa :: "int \<Rightarrow> string" where
  "Itoa i = (if i < 0 then CHR ''-'' # digits10 (nat (- i)) else digits10 (nat i))"

section \<open>Errors\<close>

text \<open>
  \<^verbatim>\<open>apiError\<close> of api.go, and the error values the program builds or receives:
  \<^verbatim>\<open>errors.New\<close>/\<^verbatim>\<open>fmt.Errorf\<close> without \<^verbatim>\<open>%w\<close> (\<open>ErrorsNew\<close>), \<^verbatim>\<open>fmt.Errorf\<close> with
  \<^verbatim>\<open>%w\<close> (\<open>Wrapped\<close>, the text before the wrapped error and the wrapped error), the
  sentinel \<^verbatim>\<open>ErrAIUnavailable\<close>, which the program compares by identity, the
  context's error, and a run-time panic (which no code of the program recovers from).
\<close>

record apiError =
  StatusCode :: int
  Message :: string
  Body :: "byte list"

datatype error =
    ApiErr apiError
  | ErrorsNew string
  | Wrapped string error
  | ErrAIUnavailable
  | CtxErr
  | RuntimePanic

section \<open>Proof of work (part\_000)\<close>

text \<open>Reading \<^verbatim>\<open>sum[i]\<close> (the digest is \<open>hsum\<close> here): an index outside the array is a run-time panic (\<open>None\<close>).\<close>

definition index_byte :: "byte list \<Rightarrow> int \<Rightarrow> byte option" where
  "index_byte hsum i = (if 0 \<le> i \<and> i < int (length hsum) then Some (hsum ! nat i) else None)"

text \<open>
  \<^verbatim>\<open>hasLeadingZeroNibbles\<close>: the \<^verbatim>\<open>for\<close> loop from index \<open>i\<close> on, then the test of the
  half nibble.  \<open>None\<close> is the panic of an index out of range.
\<close>

function hasLeadingZeroNibbles_from :: "int \<Rightarrow> byte list \<Rightarrow> int \<Rightarrow> bool \<Rightarrow> bool option" where
  "hasLeadingZeroNibbles_from i hsum fullZeroBytes halfNibble =
     (if i < fullZeroBytes then
        (case index_byte hsum i of
           None \<Rightarrow> None
         | Some b \<Rightarrow>
             if b \<noteq> 0 then Some False
             else hasLeadingZeroNibbles_from (i + 1) hsum fullZeroBytes halfNibble)
      else if halfNibble then
        (case index_byte hsum fullZeroBytes of
           None \<Rightarrow> None
         | Some b \<Rightarrow> Some (b AND 0xF0 = 0))
      else Some True)"
  by pat_completeness auto
termination
  by (relation "measure (\<lambda>(i, hsum, fullZeroBytes, halfNibble). nat (fullZeroBytes - i))") auto

declare hasLeadingZeroNibbles_from.simps [simp del]

definition hasLeadingZeroNibbles :: "byte list \<Rightarrow> int \<Rightarrow> bool \<Rightarrow> bool option" where
  "hasLeadingZeroNibbles hsum fullZeroBytes halfNibble =
     hasLeadingZeroNibbles_from 0 hsum fullZeroBytes halfNibble"

definition checkEvery :: int where
  "checkEvery = 100000"

text \<open>
  The search loop of \<^verbatim>\<open>computePowNonce\<close>.  \<open>Sum256\<close> is \<^verbatim>\<open>sha256.Sum256\<close> of the Go
  standard library, a parameter here; \<open>ctx_done i\<close> says whether the context is found
  cancelled by the poll made in iteration \<open>i\<close>.  The last argument counts the digests
  computed so far and is returned with the result.  The loop may run forever, so the
  result is an option.  The progress line the loop logs depends on the clock only and is
  left out.
\<close>

partial_function (option) computePowNonce_loop ::
  "(int \<Rightarrow> bool) \<Rightarrow> (string \<Rightarrow> byte list) \<Rightarrow> string \<Rightarrow> int \<Rightarrow> bool \<Rightarrow> int \<Rightarrow> nat
     \<Rightarrow> ((error + string) \<times> nat) option" where
  "computePowNonce_loop ctx_done Sum256 challenge fullZeroBytes halfNibble i hashes =
     (if go_rem i checkEvery = 0 \<and> ctx_done i then Some (Inl CtxErr, hashes)
      else
        (let nonce = Itoa i; hsum = Sum256 (challenge @ nonce) in
         case hasLeadingZeroNibbles hsum fullZeroBytes halfNibble of
           None \<Rightarrow> Some (Inl RuntimePanic, Suc hashes)
         | Some ok \<Rightarrow>
             if ok then Some (Inr nonce, Suc hashes)
             else computePowNonce_loop ctx_done Sum256 challenge fullZeroBytes halfNibble
                    (wrap64 (i + 1)) (Suc hashes)))"

definition computePowNonce ::
  "(int \<Rightarrow> bool) \<Rightarrow> (string \<Rightarrow> byte list) \<Rightarrow> string \<Rightarrow> int \<Rightarrow> ((error + string) \<times> nat) option" where
  "computePowNonce ctx_done Sum256 challenge difficulty =
     (if difficulty < 0 \<or> difficulty > 64
      then Some (Inl (ErrorsNew (''invalid difficulty: '' @ Itoa difficulty)), 0)
      else computePowNonce_loop ctx_done Sum256 challenge
             (go_quo difficulty 2) (go_rem difficulty 2 = 1) 0 0)"



section \<open>Strings (Go standard library)\<close>

text \<open>
  \<^verbatim>\<open>strings.TrimSpace\<close> removes the leading and the trailing white space "as defined by
  Unicode".  A Go string is read as UTF-8: the white space characters are the code
  points U+0009 to U+000D, U+0020, U+0085, U+00A0, U+1680, U+2000 to U+200A, U+2028,
  U+2029, U+202F, U+205F and U+3000, and a string starts (ends) with one of them exactly
  when it starts (ends) with its UTF-8 encoding.  The function is library code; this is
  its documented behaviour, on bytes.
\<close>

definition space_encodings :: "string list" where
  "space_encodings =
     [[CHR 0x09], [CHR 0x0A], [CHR 0x0B], [CHR 0x0C], [CHR 0x0D], [CHR 0x20],
      [CHR 0xC2, CHR 0x85], [CHR 0xC2, CHR 0xA0],
      [CHR 0xE1, CHR 0x9A, CHR 0x80],
      [CHR 0xE2, CHR 0x80, CHR 0x80], [CHR 0xE2, CHR 0x80, CHR 0x81],
      [CHR 0xE2, CHR 0x80, CHR 0x82], [CHR 0xE2, CHR 0x80, CHR 0x83],
      [CHR 0xE2, CHR 0x80, CHR 0x84], [CHR 0xE2, CHR 0x80, CHR 0x85],
      [CHR 0xE2, CHR 0x80, CHR 0x86], [CHR 0xE2, CHR 0x80, CHR 0x87],
      [CHR 0xE2, CHR 0x80, CHR 0x88], [CHR 0xE2, CHR 0x80, CHR 0x89],
      [CHR 0xE2, CHR 0x80, CHR 0x8A],
      [CHR 0xE2, CHR 0x80, CHR 0xA8], [CHR 0xE2, CHR 0x80, CHR 0xA9],
      [CHR 0xE2, CHR 0x80, CHR 0xAF], [CHR 0xE2, CHR 0x81, CHR 0x9F],
      [CHR 0xE3, CHR 0x80, CHR 0x80]]"

function TrimLeftSpace :: "string \<Rightarrow> string" where
  "TrimLeftSpace s =
     (case List.find (\<lambda>w. prefix w s) space_encodings of
        None \<Rightarrow> s
      | Some w \<Rightarrow> TrimLeftSpace (drop (length w) s))"
  by pat_completeness auto
termination
proof (relation "measure length")
  show "wf (measure length)" by simp
next
  fix s w assume "List.find (\<lambda>w. prefix w s) space_encodings = Some w"
  then have "w \<in> set space_encodings" and "prefix w s"
    by (auto simp: find_Some_iff)
  then have "w \<noteq> []" and "length w \<le> length s"
    by (auto simp: space_encodings_def prefix_length_le)
  then show "(drop (length w) s, s) \<in> measure length" by (cases w) auto
qed

function TrimRightSpace :: "string \<Rightarrow> string" where
  "TrimRightSpace s =
     (case List.find (\<lambda>w. suffix w s) space_encodings of
        None \<Rightarrow> s
      | Some w \<Rightarrow> TrimRightSpace (take (length s - length w) s))"
  by pat_completeness auto
termination
proof (relation "measure length")
  show "wf (measure length)" by simp
next
  fix s w assume "List.find (\<lambda>w. suffix w s) space_encodings = Some w"
  then have "w \<in> set space_encodings" and "suffix w s"
    by (auto simp: find_Some_iff)
  then have "w \<noteq> []" and "length w \<le> length s"
    by (auto simp: space_encodings_def suffix_length_le)
  then show "(take (length s - length w) s, s) \<in> measure length" by (cases w) auto
qed

declare TrimLeftSpace.simps [simp del] TrimRightSpace.simps [simp del]

definition TrimSpace :: "string \<Rightarrow> string" where
  "TrimSpace s = TrimRightSpace (TrimLeftSpace s)"

text \<open>\<^verbatim>\<open>strings.Contains(s, substr)\<close>: \<open>substr\<close> occurs in \<open>s\<close> as a run of consecutive bytes.\<close>

definition Contains :: "string \<Rightarrow> string \<Rightarrow> bool" where
  "Contains s substr = sublist substr s"

section \<open>Classifying errors (main.go)\<close>

text \<open>\<^verbatim>\<open>errors.As(err, &ae)\<close> with \<^verbatim>\<open>ae *apiError\<close>: the first \<^verbatim>\<open>apiError\<close> on the chain of wrapped errors.\<close>

fun errors_As_apiError :: "error \<Rightarrow> apiError option" where
  "errors_As_apiError (ApiErr ae) = Some ae"
| "errors_As_apiError (Wrapped msg e) = errors_As_apiError e"
| "errors_As_apiError e = None"

text \<open>\<^verbatim>\<open>errors.Is(err, ErrAIUnavailable)\<close>.\<close>

fun errors_Is_ErrAIUnavailable :: "error \<Rightarrow> bool" where
  "errors_Is_ErrAIUnavailable ErrAIUnavailable = True"
| "errors_Is_ErrAIUnavailable (Wrapped msg e) = errors_Is_ErrAIUnavailable e"
| "errors_Is_ErrAIUnavailable e = False"

definition errAuthRequired :: error where
  "errAuthRequired = ErrorsNew ''auth_required''"

definition isAuthError :: "error \<Rightarrow> bool" where
  "isAuthError err =
     (case errors_As_apiError err of
        None \<Rightarrow> False
      | Some ae \<Rightarrow> StatusCode ae = 401 \<or> StatusCode ae = 403)"

text \<open>
  The three messages of the server that \<^verbatim>\<open>isDailyExhaustedError\<close> looks for, as the
  UTF-8 bytes of the string literals in the source ("quota exhausted", "completed",
  "come back tomorrow").
\<close>

definition marker_quota_exhausted :: string where
  "marker_quota_exhausted =
     [CHR 0xE6, CHR 0xAC, CHR 0xA1, CHR 0xE6, CHR 0x95, CHR 0xB0, CHR 0xE5, CHR 0xB7, CHR 0xB2,
      CHR 0xE7, CHR 0x94, CHR 0xA8, CHR 0xE5, CHR 0xAE, CHR 0x8C]"

definition marker_completed :: string where
  "marker_completed =
     [CHR 0xE5, CHR 0xB7, CHR 0xB2, CHR 0xE5, CHR 0xAE, CHR 0x8C, CHR 0xE6, CHR 0x88, CHR 0x90]"

definition marker_come_back_tomorrow :: string where
  "marker_come_back_tomorrow =
     [CHR 0xE8, CHR 0xAF, CHR 0xB7, CHR 0xE6, CHR 0x98, CHR 0x8E, CHR 0xE5, CHR 0xA4, CHR 0xA9,
      CHR 0xE5, CHR 0x86, CHR 0x8D, CHR 0xE6, CHR 0x9D, CHR 0xA5]"

definition isDailyExhaustedError :: "error \<Rightarrow> bool" where
  "isDailyExhaustedError err =
     (case errors_As_apiError err of
        None \<Rightarrow> False
      | Some ae \<Rightarrow>
          if StatusCode ae \<noteq> 403 then False
          else
            (let msg = TrimSpace (Message ae) in
             Contains msg marker_quota_exhausted \<or>
             Contains msg marker_completed \<or>
             Contains msg marker_come_back_tomorrow))"

section \<open>Data (api.go, part\_001, main.go)\<close>

text \<open>
  Field names are those of the source; where two structs share a field name the later
  one carries a prefix.
\<close>

record aiConfig =
  Enabled :: bool
  Model :: string
  ai_BaseURL :: string
  APIKey :: string

record appConfig =
  BaseURL :: string
  Cookie :: string
  UserAgent :: string
  AI :: aiConfig

record authMaterial =
  am_Cookie :: string
  am_UserAgent :: string
  am_BaseURL :: string

text \<open>Of \<^verbatim>\<open>apiClient\<close>: the fields set from the configuration.  The cookie jar and the
  HTTP client belong to the environment.\<close>

record apiClient =
  baseURL :: string
  cookie :: string
  userAgent :: string

record authMeResponse =
  User_ID :: string
  User_Username :: string

record dailyRemainingResponse =
  Remaining :: int
  Completed :: int
  Limit :: int

record powStatusResponse =
  HasValidPow :: bool
  PowExpiresAt :: int
  HasOngoingChallenge :: bool

record powChallengeResponse =
  Challenge :: string
  Difficulty :: int
  ExpiresAt :: int

type_synonym grid = "int list list"

record puzzle =
  puzzle_ID :: string
  Train :: "(grid \<times> grid) list"
  TestInput :: grid
  BackgroundColor :: int
  AnswerSize_Width :: int
  AnswerSize_Height :: int

record puzzleNewResponse =
  Puzzle :: puzzle
  pn_RemainingAttempts :: int
  pn_DailyRemaining :: int
  pn_DailyLimit :: int

record puzzleSubmitResponse =
  Success :: bool
  Correct :: bool
  sub_Message :: string
  sub_RemainingAttempts :: int
  PointsAwarded :: int
  PointsBalance :: int
  sub_DailyRemaining :: int
  sub_DailyLimit :: int

record Solver =
  model :: string
  solver_cfg :: aiConfig

definition defaultUA :: string where
  "defaultUA = ''Mozilla/5.0 (Windows NT 10.0; Win64; x64) AppleWebKit/537.36 (KHTML, like Gecko) Chrome/131.0.0.0 Safari/537.36''"

definition defaultAIModel :: string where
  "defaultAIModel = ''claude-sonnet-4-5-20250929''"

section \<open>The environment and the trace of a run\<close>

text \<open>
  Everything the program does to the outside is recorded, in order, in a trace: the
  remote calls (with the client that makes them), the prompts, the writes of the
  configuration, the readings of the clock and of the random source, the sleeps and the
  log lines (the logger's method, the format string of the source and its arguments).
  Durations are nanoseconds, as in \<^verbatim>\<open>time.Duration\<close>; \<open>T\<close> stands for an elapsed time that
  is only printed.
\<close>

datatype logfn = LogInfo | LogWarn | LogOk | LogErr

datatype arg = I int | S string | B bool | E error | D int | T

datatype event =
    is_PrintUsage: PrintUsage string
  | is_Prompt: Prompt
  | is_SaveConfig: SaveConfig appConfig
  | is_ExportCookieHeader: ExportCookieHeader apiClient
  | is_AuthMe: AuthMe apiClient
  | is_DailyRemaining: DailyRemaining apiClient
  | is_PowStatus: PowStatus apiClient
  | is_Now: Now
  | is_PowChallenge: PowChallenge apiClient
  | is_PowNonce: PowNonce string int
  | is_PowVerify: PowVerify apiClient string string
  | is_PuzzleNew: PuzzleNew apiClient
  | is_Solve: Solve puzzle
  | is_PuzzleSubmit: PuzzleSubmit apiClient string grid
  | is_Intn: Intn int
  | is_Sleep: Sleep int
  | is_Log: Log logfn string "arg list"

text \<open>
  The environment answers the \<open>k\<close>-th call of each operation (counted from 0).  It stands
  for the remote service, the terminal, the file system, the clock, the random source and
  the external solver (\<^verbatim>\<open>Solver.Solve\<close>, consumed at its interface), and for the library
  functions \<^verbatim>\<open>flag.Parse\<close>, \<^verbatim>\<open>url.Parse\<close> and \<^verbatim>\<open>sha256.Sum256\<close>.  \<open>flag_Parse\<close> yields the
  values of \<^verbatim>\<open>--config\<close>, \<^verbatim>\<open>--count\<close>, \<^verbatim>\<open>--dry-run\<close> and \<^verbatim>\<open>--auto\<close>; \<open>url_Parse\<close> yields
  the parsed URL printed back, its path without trailing slashes; \<open>ctx_Done k i\<close> is what
  the \<open>k\<close>-th nonce search sees when it polls the context in iteration \<open>i\<close>.
\<close>

record world =
  flag_Parse :: "string list \<Rightarrow> error + (string \<times> int \<times> bool \<times> bool)"
  loadConfig :: "string \<Rightarrow> error + appConfig"
  getenv_OPENAI_API_KEY :: string
  url_Parse :: "string \<Rightarrow> error + string"
  promptAuthMaterial :: "nat \<Rightarrow> error + authMaterial"
  saveConfig :: "nat \<Rightarrow> error option"
  exportCookieHeader :: "nat \<Rightarrow> string"
  authMe :: "nat \<Rightarrow> error + authMeResponse"
  dailyRemaining :: "nat \<Rightarrow> error + dailyRemainingResponse"
  powStatus :: "nat \<Rightarrow> error + powStatusResponse"
  time_Now :: "nat \<Rightarrow> int"
  powChallenge :: "nat \<Rightarrow> error + powChallengeResponse"
  ctx_Done :: "nat \<Rightarrow> int \<Rightarrow> bool"
  sha256_Sum256 :: "string \<Rightarrow> byte list"
  powVerify :: "nat \<Rightarrow> error option"
  puzzleNew :: "nat \<Rightarrow> error + puzzleNewResponse"
  solver_Solve :: "nat \<Rightarrow> error + grid"
  puzzleSubmit :: "nat \<Rightarrow> error + puzzleSubmitResponse"
  rand_source :: "nat \<Rightarrow> nat"

text \<open>How many calls of a kind the trace holds: the index of the next one.\<close>

definition nth_call :: "(event \<Rightarrow> bool) \<Rightarrow> event list \<Rightarrow> nat" where
  "nth_call P tr = length (filter P tr)"

definition Second :: int where
  "Second = 1000000000"

text \<open>\<^verbatim>\<open>rand.Intn(n)\<close> for \<open>n > 0\<close>: a value in \<open>[0, n)\<close>.\<close>

definition rand_Intn :: "world \<Rightarrow> event list \<Rightarrow> int \<Rightarrow> int" where
  "rand_Intn w tr n = int (rand_source w (nth_call is_Intn tr) mod nat n)"

section \<open>Retry with backoff (main.go)\<close>

text \<open>
  \<^verbatim>\<open>puzzleNewWithRetry\<close> and \<^verbatim>\<open>submitWithRetry\<close>: the loop with its variable \<open>backoff\<close>.
  The loops have no bound on the number of rounds, so the result is an option.
\<close>

partial_function (option) puzzleNewWithRetry_loop ::
  "world \<Rightarrow> apiClient \<Rightarrow> int \<Rightarrow> event list
     \<Rightarrow> ((error + puzzleNewResponse) \<times> event list) option" where
  "puzzleNewWithRetry_loop w client backoff tr =
     (let tr1 = tr @ [PuzzleNew client] in
      case puzzleNew w (nth_call is_PuzzleNew tr) of
        Inr pNew \<Rightarrow> Some (Inr pNew, tr1)
      | Inl err \<Rightarrow>
          if (case errors_As_apiError err of None \<Rightarrow> False | Some ae \<Rightarrow> StatusCode ae = 429)
          then puzzleNewWithRetry_loop w client
                 (if backoff < 30 * Second then backoff * 2 else backoff)
                 (tr1 @ [Log LogWarn ''rate limited (429), waiting %s...'' [D backoff],
                         Sleep backoff])
          else Some (Inl err, tr1))"

definition puzzleNewWithRetry ::
  "world \<Rightarrow> apiClient \<Rightarrow> event list \<Rightarrow> ((error + puzzleNewResponse) \<times> event list) option" where
  "puzzleNewWithRetry w client tr = puzzleNewWithRetry_loop w client (2 * Second) tr"

partial_function (option) submitWithRetry_loop ::
  "world \<Rightarrow> apiClient \<Rightarrow> string \<Rightarrow> grid \<Rightarrow> int \<Rightarrow> event list
     \<Rightarrow> ((error + puzzleSubmitResponse) \<times> event list) option" where
  "submitWithRetry_loop w client puzzleID answer backoff tr =
     (let tr1 = tr @ [PuzzleSubmit client puzzleID answer] in
      case puzzleSubmit w (nth_call is_PuzzleSubmit tr) of
        Inr sub \<Rightarrow> Some (Inr sub, tr1)
      | Inl err \<Rightarrow>
          if (case errors_As_apiError err of None \<Rightarrow> False | Some ae \<Rightarrow> StatusCode ae = 429)
          then submitWithRetry_loop w client puzzleID answer
                 (if backoff < 30 * Second then backoff * 2 else backoff)
                 (tr1 @ [Log LogWarn ''submit rate limited (429), waiting %s...'' [D backoff],
                         Sleep backoff])
          else Some (Inl err, tr1))"

definition submitWithRetry ::
  "world \<Rightarrow> apiClient \<Rightarrow> string \<Rightarrow> grid \<Rightarrow> event list
     \<Rightarrow> ((error + puzzleSubmitResponse) \<times> event list) option" where
  "submitWithRetry w client puzzleID answer tr =
     submitWithRetry_loop w client puzzleID answer (2 * Second) tr"

section \<open>The remote client and the login (api.go, main.go)\<close>

definition newAPIClient :: "world \<Rightarrow> appConfig \<Rightarrow> error + apiClient" where
  "newAPIClient w cfg =
     (if BaseURL cfg = [] then Inl (ErrorsNew ''base_url is required'')
      else
        (case url_Parse w (BaseURL cfg) of
           Inl err \<Rightarrow> Inl (Wrapped ''invalid base_url'' err)
         | Inr u \<Rightarrow>
             Inr \<lparr>baseURL = u, cookie = TrimSpace (Cookie cfg),
                  userAgent = (if UserAgent cfg = [] then defaultUA else UserAgent cfg)\<rparr>))"

text \<open>
  The block that \<^verbatim>\<open>ensureLoginInteractive\<close> holds twice, word for word: prompt for
  credential material, put it into the configuration, save the configuration.
\<close>

definition prompt_and_save :: "world \<Rightarrow> appConfig \<Rightarrow> event list \<Rightarrow> (error + appConfig) \<times> event list" where
  "prompt_and_save w cfg tr =
     (let tr1 = tr @ [Prompt] in
      case promptAuthMaterial w (nth_call is_Prompt tr) of
        Inl err \<Rightarrow> (Inl err, tr1)
      | Inr inp \<Rightarrow>
          (let cfg1 = cfg\<lparr>Cookie := am_Cookie inp\<rparr>;
               cfg2 = (if am_UserAgent inp \<noteq> [] then cfg1\<lparr>UserAgent := am_UserAgent inp\<rparr> else cfg1);
               cfg3 = (if am_BaseURL inp \<noteq> [] \<and> BaseURL cfg2 = []
                       then cfg2\<lparr>BaseURL := am_BaseURL inp\<rparr> else cfg2);
               tr2 = tr1 @ [SaveConfig cfg3]
           in case saveConfig w (nth_call is_SaveConfig tr1) of
                Some err \<Rightarrow> (Inl err, tr2)
              | None \<Rightarrow> (Inr cfg3, tr2 @ [Log LogOk ''config.json updated (cookie saved)'' []])))"

text \<open>
  The second attempt of \<^verbatim>\<open>ensureLoginInteractive\<close>, entered when the first validation
  fails with an auth error: prompt, save, build a client, validate once more.
\<close>

definition login_second_attempt ::
  "world \<Rightarrow> appConfig \<Rightarrow> event list \<Rightarrow> (error + appConfig) \<times> event list" where
  "login_second_attempt w cfg1 tr2 =
     (case prompt_and_save w cfg1 tr2 of
        (Inl perr, tr3) \<Rightarrow> (Inl perr, tr3)
      | (Inr cfg2, tr3) \<Rightarrow>
          (case newAPIClient w cfg2 of
             Inl err2 \<Rightarrow> (Inl err2, tr3)
           | Inr client2 \<Rightarrow>
               (let tr4 = tr3 @ [AuthMe client2] in
                case authMe w (nth_call is_AuthMe tr3) of
                  Inr me2 \<Rightarrow> (Inr cfg2, tr4)
                | Inl err2 \<Rightarrow>
                    if isAuthError err2
                    then (Inl (ErrorsNew ''login still invalid: please check cookie/token''), tr4)
                    else (Inl err2, tr4))))"

definition ensureLoginInteractive ::
  "world \<Rightarrow> appConfig \<Rightarrow> event list \<Rightarrow> (error + appConfig) \<times> event list" where
  "ensureLoginInteractive w cfg0 tr =
     (let cfg = cfg0\<lparr>Cookie := TrimSpace (Cookie cfg0)\<rparr> in
      case (if Cookie cfg = [] then prompt_and_save w cfg tr else (Inr cfg, tr)) of
        (Inl err, tr1) \<Rightarrow> (Inl err, tr1)
      | (Inr cfg1, tr1) \<Rightarrow>
          (case newAPIClient w cfg1 of
             Inl err \<Rightarrow> (Inl err, tr1)
           | Inr client1 \<Rightarrow>
               (let tr2 = tr1 @ [AuthMe client1] in
                case authMe w (nth_call is_AuthMe tr1) of
                  Inr me \<Rightarrow> (Inr cfg1, tr2)
                | Inl err \<Rightarrow>
                    if \<not> isAuthError err then (Inl err, tr2)
                    else login_second_attempt w cfg1 tr2)))"

text \<open>
  \<^verbatim>\<open>persistCookieIfChanged\<close>, called with a configuration and a client that are never
  \<^verbatim>\<open>nil\<close>.  It writes the new cookie into the caller's configuration before it saves,
  so the configuration is returned together with the error.
\<close>

definition persistCookieIfChanged ::
  "world \<Rightarrow> appConfig \<Rightarrow> apiClient \<Rightarrow> event list \<Rightarrow> error option \<times> appConfig \<times> event list" where
  "persistCookieIfChanged w cfg c tr =
     (let newCookie = TrimSpace (exportCookieHeader w (nth_call is_ExportCookieHeader tr));
          tr1 = tr @ [ExportCookieHeader c]
      in if newCookie = [] then (None, cfg, tr1)
         else if TrimSpace (Cookie cfg) = newCookie then (None, cfg, tr1)
         else
           (let cfg1 = cfg\<lparr>Cookie := newCookie\<rparr>; tr2 = tr1 @ [SaveConfig cfg1] in
            case saveConfig w (nth_call is_SaveConfig tr1) of
              Some err \<Rightarrow> (Some err, cfg1, tr2)
            | None \<Rightarrow> (None, cfg1, tr2 @ [Log LogOk ''config.json updated (cookie refreshed)'' []])))"

section \<open>Keeping the proof of work fresh (part\_000)\<close>

text \<open>
  Instants are nanoseconds since the Unix epoch.  \<^verbatim>\<open>Time.Sub\<close> yields a
  \<^verbatim>\<open>time.Duration\<close>, a 64-bit count of nanoseconds, and saturates at its two ends.
\<close>

definition UnixMilli :: "int \<Rightarrow> int" where
  "UnixMilli msec = msec * 1000000"

definition maxDuration :: int where
  "maxDuration = 2 ^ 63 - 1"

definition minDuration :: int where
  "minDuration = - (2 ^ 63)"

definition time_Sub :: "int \<Rightarrow> int \<Rightarrow> int" where
  "time_Sub t u =
     (let d = t - u in
      if d > maxDuration then maxDuration else if d < minDuration then minDuration else d)"

definition powRefreshWindow :: int where
  "powRefreshWindow = 120 * Second"

text \<open>The refresh, from the line "PoW needs refresh, solving..." to the end of \<^verbatim>\<open>ensurePow\<close>.\<close>

definition ensurePow_refresh ::
  "world \<Rightarrow> apiClient \<Rightarrow> event list \<Rightarrow> (error option \<times> event list) option" where
  "ensurePow_refresh w c tr =
     (let tr1 = tr @ [Log LogInfo ''PoW needs refresh, solving...'' []];
          tr2 = tr1 @ [PowChallenge c]
      in case powChallenge w (nth_call is_PowChallenge tr1) of
           Inl err \<Rightarrow> Some (Some err, tr2)
         | Inr chal \<Rightarrow>
             (let tr3 = tr2 @ [PowNonce (Challenge chal) (Difficulty chal)] in
              case computePowNonce (ctx_Done w (nth_call is_PowNonce tr2)) (sha256_Sum256 w)
                     (Challenge chal) (Difficulty chal) of
                None \<Rightarrow> None
              | Some (Inl err, hashes) \<Rightarrow> Some (Some err, tr3)
              | Some (Inr nonce, hashes) \<Rightarrow>
                  (let tr4 = tr3 @ [Log LogOk ''PoW found nonce=%s (elapsed %s)'' [S nonce, T]];
                       tr5 = tr4 @ [PowVerify c (Challenge chal) nonce]
                   in case powVerify w (nth_call is_PowVerify tr4) of
                        Some err \<Rightarrow> Some (Some err, tr5)
                      | None \<Rightarrow> Some (None, tr5 @ [Log LogOk ''PoW verified'' []]))))"

definition ensurePow ::
  "world \<Rightarrow> apiClient \<Rightarrow> event list \<Rightarrow> (error option \<times> event list) option" where
  "ensurePow w c tr =
     (let tr1 = tr @ [PowStatus c] in
      case powStatus w (nth_call is_PowStatus tr) of
        Inl err \<Rightarrow> Some (Some err, tr1)
      | Inr st \<Rightarrow>
          (let now = time_Now w (nth_call is_Now tr1);
               tr2 = tr1 @ [Now];
               exp = UnixMilli (PowExpiresAt st);
               need0 = (\<not> HasValidPow st);
               need = (if HasValidPow st \<and> PowExpiresAt st > 0 \<and> time_Sub exp now < powRefreshWindow
                       then True else need0)
           in if \<not> need then Some (None, tr2 @ [Log LogOk ''PoW valid, no refresh needed'' []])
              else ensurePow_refresh w c tr2))"

section \<open>The solver's construction (part\_002)\<close>

definition newAISolver :: "world \<Rightarrow> appConfig \<Rightarrow> event list \<Rightarrow> (error + Solver option) \<times> event list" where
  "newAISolver w cfg tr =
     (if \<not> Enabled (AI cfg) then (Inr None, tr)
      else
        (let apiKey0 = TrimSpace (APIKey (AI cfg));
             apiKey = (if apiKey0 = [] then TrimSpace (getenv_OPENAI_API_KEY w) else apiKey0)
         in if apiKey = []
            then (Inl (ErrorsNew ''missing API key (set ai.api_key in config or OPENAI_API_KEY env)''), tr)
            else
              (let modelName0 = TrimSpace (Model (AI cfg));
                   modelName = (if modelName0 = [] then defaultAIModel else modelName0);
                   endpoint = TrimSpace (ai_BaseURL (AI cfg));
                   tr1 = (if endpoint \<noteq> []
                          then tr @ [Log LogInfo ''AI using custom endpoint: %s'' [S endpoint]] else tr)
               in (Inr (Some \<lparr>model = modelName, solver_cfg = AI cfg\<rparr>), tr1))))"

section \<open>The solving loop (main.go, \<^verbatim>\<open>runSolve\<close>)\<close>

text \<open>
  The variables of \<^verbatim>\<open>runSolve\<close> that the loop changes, and what one round of the loop ends
  with: a \<^verbatim>\<open>return\<close> (of \<^verbatim>\<open>nil\<close> or of an error) or the next round (\<^verbatim>\<open>continue\<close>).
  \<open>solvedCount\<close> stays below \<open>count\<close>, which the command line gives, so neither leaves the
  range of a Go \<^verbatim>\<open>int\<close> in a run of any feasible length; they are integers here.
\<close>

record loop_state =
  ls_cfg :: appConfig
  ls_client :: apiClient
  solvedCount :: int
  count :: int

datatype step = Return "error option" | Continue loop_state

text \<open>The recovery from an expired login, the same lines after a failed fetch and after a
  failed submission.\<close>

definition reauthenticate :: "world \<Rightarrow> loop_state \<Rightarrow> event list \<Rightarrow> step \<times> event list" where
  "reauthenticate w st tr =
     (let tr1 = tr @ [Log LogWarn ''auth expired, re-authenticating...'' []] in
      case ensureLoginInteractive w (ls_cfg st) tr1 of
        (Inl err, tr2) \<Rightarrow> (Return (Some err), tr2)
      | (Inr cfg1, tr2) \<Rightarrow>
          (case newAPIClient w cfg1 of
             Inl err \<Rightarrow> (Return (Some err), tr2)
           | Inr client1 \<Rightarrow> (Continue (st\<lparr>ls_cfg := cfg1, ls_client := client1\<rparr>), tr2)))"

text \<open>The end of a round, from the answer of the submission on.\<close>

definition handle_outcome ::
  "world \<Rightarrow> bool \<Rightarrow> loop_state \<Rightarrow> puzzleSubmitResponse \<Rightarrow> event list \<Rightarrow> step \<times> event list" where
  "handle_outcome w autoLoop st sub tr =
     (case persistCookieIfChanged w (ls_cfg st) (ls_client st) tr of
        (perr, cfg1, tr1) \<Rightarrow>
          (let st1 = st\<lparr>ls_cfg := cfg1\<rparr> in
           if \<not> Success sub
           then (Return (Some (ErrorsNew (''submit failed: '' @ sub_Message sub))), tr1)
           else
             (let tr2 = tr1 @ [Log LogInfo ''submit response: %s'' [S (sub_Message sub)]] in
              if Correct sub then
                (let tr3 = tr2 @ [Log LogOk ''correct: +%d points, balance=%d, dailyRemaining=%d/%d''
                                    [I (PointsAwarded sub), I (PointsBalance sub),
                                     I (sub_DailyRemaining sub), I (sub_DailyLimit sub)]];
                     st2 = st1\<lparr>solvedCount := solvedCount st1 + 1\<rparr>
                 in if autoLoop \<and> sub_DailyRemaining sub > 0 then
                      (let waitMin = 1 * 60 + rand_Intn w tr3 (4 * 60 + 1);
                           waitDur = waitMin * Second;
                           tr4 = tr3 @ [Intn (4 * 60 + 1),
                                        Log LogInfo ''auto mode: sleeping %s (remaining %d)...''
                                          [D waitDur, I (sub_DailyRemaining sub)],
                                        Sleep waitDur]
                       in (Continue (st2\<lparr>count := solvedCount st2 + 1\<rparr>), tr4))
                    else (Continue st2, tr3))
              else
                (let tr3 = tr2 @ [Log LogWarn ''incorrect: remainingAttempts=%d''
                                    [I (sub_RemainingAttempts sub)]]
                 in if autoLoop then
                      (let tr4 = tr3 @ [Log LogWarn ''auto mode: answer incorrect, skipping...'' []];
                           waitDur = (30 + rand_Intn w tr4 30) * Second;
                           tr5 = tr4 @ [Intn 30,
                                        Log LogInfo ''sleeping %s before continue...'' [D waitDur],
                                        Sleep waitDur]
                       in (Continue (st1\<lparr>count := solvedCount st1 + 1\<rparr>), tr5))
                    else (Return (Some (ErrorsNew ''submitted answer was incorrect'')), tr3)))))"

text \<open>The round from the solver's answer to the submission.\<close>

definition submit_answer ::
  "world \<Rightarrow> bool \<Rightarrow> bool \<Rightarrow> loop_state \<Rightarrow> puzzleNewResponse \<Rightarrow> grid \<Rightarrow> event list
     \<Rightarrow> (step \<times> event list) option" where
  "submit_answer w dryRun autoLoop st pNew answer tr =
     (let tr1 = tr @ [Log LogOk ''AI solved (elapsed %s)'' [T]] in
      if dryRun then
        Some (Continue (st\<lparr>solvedCount := solvedCount st + 1\<rparr>),
              tr1 @ [Log LogOk ''dry-run: puzzleId=%s answer generated but not submitted''
                       [S (puzzle_ID (Puzzle pNew))]])
      else
        (case ensurePow w (ls_client st) tr1 of
           None \<Rightarrow> None
         | Some (Some err, tr2) \<Rightarrow> Some (Return (Some err), tr2)
         | Some (None, tr2) \<Rightarrow>
             (case persistCookieIfChanged w (ls_cfg st) (ls_client st) tr2 of
                (perr, cfg1, tr3) \<Rightarrow>
                  (let st1 = st\<lparr>ls_cfg := cfg1\<rparr>;
                       tr4 = tr3 @ [Log LogInfo ''submitting: puzzleId=%s'' [S (puzzle_ID (Puzzle pNew))]]
                   in case submitWithRetry w (ls_client st1) (puzzle_ID (Puzzle pNew)) answer tr4 of
                        None \<Rightarrow> None
                      | Some (Inl err, tr5) \<Rightarrow>
                          if isAuthError err then Some (reauthenticate w st1 tr5)
                          else Some (Return (Some err), tr5)
                      | Some (Inr sub, tr5) \<Rightarrow> Some (handle_outcome w autoLoop st1 sub tr5)))))"

text \<open>The round from the fetched puzzle to the solver's answer.\<close>

definition solve_puzzle ::
  "world \<Rightarrow> bool \<Rightarrow> bool \<Rightarrow> loop_state \<Rightarrow> puzzleNewResponse \<Rightarrow> event list
     \<Rightarrow> (step \<times> event list) option" where
  "solve_puzzle w dryRun autoLoop st pNew tr =
     (case persistCookieIfChanged w (ls_cfg st) (ls_client st) tr of
        (perr, cfg1, tr1) \<Rightarrow>
          (let st1 = st\<lparr>ls_cfg := cfg1\<rparr> in
           if pn_DailyRemaining pNew \<le> 0
           then Some (Return None, tr1 @ [Log LogWarn ''stopping: daily limit exhausted'' []])
           else
             (let tr2 = tr1 @ [Log LogInfo
                                 ''puzzle fetched: puzzleId=%s, remainingAttempts=%d, dailyRemaining=%d/%d''
                                 [S (puzzle_ID (Puzzle pNew)), I (pn_RemainingAttempts pNew),
                                  I (pn_DailyRemaining pNew), I (pn_DailyLimit pNew)]];
                  tr3 = tr2 @ [Solve (Puzzle pNew)]
              in case solver_Solve w (nth_call is_Solve tr2) of
                   Inl err \<Rightarrow>
                     if errors_Is_ErrAIUnavailable err
                     then Some (Return (Some (Wrapped ''AI unavailable'' err)),
                                tr3 @ [Log LogErr ''AI service unavailable'' []])
                     else if autoLoop then
                       (let tr4 = tr3 @ [Log LogWarn ''AI solve failed: %v, skipping...'' [E err]];
                            waitDur = (30 + rand_Intn w tr4 30) * Second;
                            tr5 = tr4 @ [Intn 30,
                                         Log LogInfo ''sleeping %s before continue...'' [D waitDur],
                                         Sleep waitDur]
                        in Some (Continue (st1\<lparr>count := solvedCount st1 + 1\<rparr>), tr5))
                     else Some (Return (Some (Wrapped ''ai solve failed'' err)), tr3)
                 | Inr answer \<Rightarrow> submit_answer w dryRun autoLoop st1 pNew answer tr3)))"

text \<open>One round of the loop.\<close>

definition runSolve_round ::
  "world \<Rightarrow> bool \<Rightarrow> bool \<Rightarrow> loop_state \<Rightarrow> event list \<Rightarrow> (step \<times> event list) option" where
  "runSolve_round w dryRun autoLoop st tr =
     (let tr1 = tr @ [Log LogInfo ''fetching puzzle: index=%d/%d'' [I (solvedCount st + 1), I (count st)]] in
      case puzzleNewWithRetry w (ls_client st) tr1 of
        None \<Rightarrow> None
      | Some (Inl err, tr2) \<Rightarrow>
          if isDailyExhaustedError err
          then Some (Return None, tr2 @ [Log LogWarn ''stopping: daily limit exhausted'' []])
          else if isAuthError err then Some (reauthenticate w st tr2)
          else Some (Return (Some err), tr2)
      | Some (Inr pNew, tr2) \<Rightarrow> solve_puzzle w dryRun autoLoop st pNew tr2)"

partial_function (option) runSolve_loop ::
  "world \<Rightarrow> bool \<Rightarrow> bool \<Rightarrow> loop_state \<Rightarrow> event list \<Rightarrow> (error option \<times> event list) option" where
  "runSolve_loop w dryRun autoLoop st tr =
     (if solvedCount st < count st then
        (case runSolve_round w dryRun autoLoop st tr of
           None \<Rightarrow> None
         | Some (Return res, tr1) \<Rightarrow> Some (res, tr1)
         | Some (Continue st1, tr1) \<Rightarrow> runSolve_loop w dryRun autoLoop st1 tr1)
      else if autoLoop then
        Some (None, tr @ [Log LogOk
                ''auto mode complete: daily limit exhausted, solved %d puzzles, elapsed %s''
                [I (solvedCount st), T]])
      else
        Some (None, tr @ [Log LogOk ''done: solved=%d/%d elapsed=%s''
                [I (solvedCount st), I (count st), T]]))"

text \<open>\<^verbatim>\<open>runSolve\<close> from the first refresh of the proof of work to the end.\<close>

definition runSolve_work ::
  "world \<Rightarrow> int \<Rightarrow> bool \<Rightarrow> bool \<Rightarrow> appConfig \<Rightarrow> apiClient \<Rightarrow> event list
     \<Rightarrow> (error option \<times> event list) option" where
  "runSolve_work w cnt dryRun autoLoop cfg c tr =
     (case ensurePow w c tr of
        None \<Rightarrow> None
      | Some (Some err, tr1) \<Rightarrow> Some (Some err, tr1)
      | Some (None, tr1) \<Rightarrow>
          (case persistCookieIfChanged w cfg c tr1 of
             (perr, cfg1, tr2) \<Rightarrow>
               (case newAISolver w cfg1 tr2 of
                  (Inl err, tr3) \<Rightarrow> Some (Some err, tr3)
                | (Inr None, tr3) \<Rightarrow> Some (Some (ErrorsNew ''AI solver not configured''), tr3)
                | (Inr (Some solver), tr3) \<Rightarrow>
                    runSolve_loop w dryRun autoLoop
                      \<lparr>ls_cfg = cfg1, ls_client = c, solvedCount = 0, count = cnt\<rparr> tr3)))"

text \<open>\<^verbatim>\<open>runSolve\<close> from the query of the daily quota on.\<close>

definition runSolve_quota ::
  "world \<Rightarrow> int \<Rightarrow> bool \<Rightarrow> bool \<Rightarrow> appConfig \<Rightarrow> apiClient \<Rightarrow> event list
     \<Rightarrow> (error option \<times> event list) option" where
  "runSolve_quota w cnt dryRun autoLoop cfg c tr =
     (let tr1 = tr @ [DailyRemaining c] in
      case dailyRemaining w (nth_call is_DailyRemaining tr) of
        Inr dr \<Rightarrow>
          (let tr2 = tr1 @ [Log LogInfo ''daily quota: remaining=%d completed=%d limit=%d''
                              [I (Remaining dr), I (Completed dr), I (Limit dr)]]
           in if Remaining dr \<le> 0
              then Some (None, tr2 @ [Log LogWarn ''stopping: daily limit exhausted'' []])
              else runSolve_work w cnt dryRun autoLoop cfg c tr2)
      | Inl err \<Rightarrow>
          runSolve_work w cnt dryRun autoLoop cfg c
            (tr1 @ [Log LogWarn ''failed to query daily quota: %s (will try fetching puzzle)'' [E err]]))"

definition runSolve :: "world \<Rightarrow> string list \<Rightarrow> event list \<Rightarrow> (error option \<times> event list) option" where
  "runSolve w args tr =
     (case flag_Parse w args of
        Inl err \<Rightarrow> Some (Some err, tr)
      | Inr (configPath, cnt, dryRun, autoLoop) \<Rightarrow>
          if configPath = [] then Some (Some (ErrorsNew ''--config is required''), tr)
          else if cnt \<le> 0 then Some (Some (ErrorsNew ''--count must be > 0''), tr)
          else
            (let tr1 = tr @ [Log LogInfo ''starting: count=%d dryRun=%v autoLoop=%v''
                               [I cnt, B dryRun, B autoLoop]]
             in case loadConfig w configPath of
                  Inl err \<Rightarrow> Some (Some err, tr1)
                | Inr cfg0 \<Rightarrow>
                    (case ensureLoginInteractive w cfg0 tr1 of
                       (Inl err, tr2) \<Rightarrow> Some (Some err, tr2)
                     | (Inr cfg, tr2) \<Rightarrow>
                         (case newAPIClient w cfg of
                            Inl err \<Rightarrow> Some (Some err, tr2)
                          | Inr c \<Rightarrow>
                              (let tr3 = tr2 @ [AuthMe c] in
                               case authMe w (nth_call is_AuthMe tr2) of
                                 Inl err \<Rightarrow>
                                   if isAuthError err then Some (Some errAuthRequired, tr3)
                                   else Some (Some err, tr3)
                               | Inr me \<Rightarrow>
                                   (case persistCookieIfChanged w cfg c tr3 of
                                      (perr, cfg1, tr4) \<Rightarrow>
                                        runSolve_quota w cnt dryRun autoLoop cfg1 c
                                          (tr4 @ [Log LogOk ''logged in: %s(%s)''
                                                    [S (User_Username me), S (User_ID me)],
                                                  Log LogInfo ''site: %s'' [S (BaseURL cfg1)]])))))))"

section \<open>The command (main.go, \<^verbatim>\<open>run\<close> and \<^verbatim>\<open>main\<close>)\<close>

definition run :: "world \<Rightarrow> string list \<Rightarrow> event list \<Rightarrow> (error option \<times> event list) option" where
  "run w args tr =
     (case args of
        [] \<Rightarrow> Some (None, tr @ [PrintUsage ''stdout''])
      | a # rest \<Rightarrow>
          if a = ''help'' \<or> a = ''-h'' \<or> a = ''--help'' then Some (None, tr @ [PrintUsage ''stdout''])
          else if a = ''solve'' then runSolve w rest tr
          else Some (Some (ErrorsNew (''unknown command: '' @ a)), tr @ [PrintUsage ''stderr'']))"

text \<open>\<^verbatim>\<open>main\<close>: the exit status of the process and the trace of the run.\<close>

definition main_exit :: "world \<Rightarrow> string list \<Rightarrow> (int \<times> event list) option" where
  "main_exit w osArgs =
     (case run w osArgs [] of
        None \<Rightarrow> None
      | Some (None, tr) \<Rightarrow> Some (0, tr)
      | Some (Some err, tr) \<Rightarrow> Some (1, tr @ [Log LogErr ''%s'' [E err]]))"

section \<open>Notions used to state the properties\<close>

text \<open>An error that the retry loops answer with a sleep and another call.\<close>

definition is429 :: "error \<Rightarrow> bool" where
  "is429 err = (case errors_As_apiError err of None \<Rightarrow> False | Some ae \<Rightarrow> StatusCode ae = 429)"

text \<open>What the retry loops do to \<open>backoff\<close> after a sleep.\<close>

definition next_backoff :: "int \<Rightarrow> int" where
  "next_backoff backoff = (if backoff < 30 * Second then backoff * 2 else backoff)"

text \<open>The events of \<open>n\<close> rate-limited rounds of a retry loop that starts with \<open>backoff\<close>.\<close>

fun retry_rounds :: "event \<Rightarrow> string \<Rightarrow> int \<Rightarrow> nat \<Rightarrow> event list" where
  "retry_rounds call fmt backoff 0 = []"
| "retry_rounds call fmt backoff (Suc n) =
     [call, Log LogWarn fmt [D backoff], Sleep backoff] @ retry_rounds call fmt (next_backoff backoff) n"

text \<open>The sleeps of a trace, in order.\<close>

definition sleeps :: "event list \<Rightarrow> int list" where
  "sleeps tr = concat (map (\<lambda>e. case e of Sleep d \<Rightarrow> [d] | _ \<Rightarrow> []) tr)"

section \<open>A sample environment\<close>

text \<open>
  An environment in which every call succeeds at once, for the examples: the stored
  login is valid, two attempts are left for the day, the proof of work is valid, and the
  answer to the one puzzle is accepted as correct.
\<close>

definition sample_cfg :: appConfig where
  "sample_cfg =
     \<lparr>BaseURL = ''https://example.com'', Cookie = ''session=1'', UserAgent = ''ua'',
      AI = \<lparr>Enabled = True, Model = ''m'', ai_BaseURL = [], APIKey = ''key''\<rparr>\<rparr>"

definition sample_puzzle :: puzzle where
  "sample_puzzle =
     \<lparr>puzzle_ID = ''p1'', Train = [], TestInput = [[0]], BackgroundColor = 0,
      AnswerSize_Width = 1, AnswerSize_Height = 1\<rparr>"

definition sample_ticket :: puzzleNewResponse where
  "sample_ticket =
     \<lparr>Puzzle = sample_puzzle, pn_RemainingAttempts = 3, pn_DailyRemaining = 2, pn_DailyLimit = 5\<rparr>"

definition sample_outcome :: puzzleSubmitResponse where
  "sample_outcome =
     \<lparr>Success = True, Correct = True, sub_Message = ''ok'', sub_RemainingAttempts = 2,
      PointsAwarded = 1, PointsBalance = 1, sub_DailyRemaining = 1, sub_DailyLimit = 5\<rparr>"

definition sample_client :: apiClient where
  "sample_client = \<lparr>baseURL = ''https://example.com'', cookie = ''session=1'', userAgent = ''ua''\<rparr>"

definition sample_world :: world where
  "sample_world =
     \<lparr>flag_Parse = (\<lambda>args. Inr (''config.json'', 1, False, False)),
      loadConfig = (\<lambda>path. Inr sample_cfg),
      getenv_OPENAI_API_KEY = [],
      url_Parse = (\<lambda>s. Inr s),
      promptAuthMaterial = (\<lambda>k. Inr \<lparr>am_Cookie = ''session=2'', am_UserAgent = [], am_BaseURL = []\<rparr>),
      saveConfig = (\<lambda>k. None),
      exportCookieHeader = (\<lambda>k. []),
      authMe = (\<lambda>k. Inr \<lparr>User_ID = ''7'', User_Username = ''user''\<rparr>),
      dailyRemaining = (\<lambda>k. Inr \<lparr>Remaining = 2, Completed = 3, Limit = 5\<rparr>),
      powStatus = (\<lambda>k. Inr \<lparr>HasValidPow = True, PowExpiresAt = 0, HasOngoingChallenge = False\<rparr>),
      time_Now = (\<lambda>k. 1700000000 * Second),
      powChallenge = (\<lambda>k. Inr \<lparr>Challenge = ''ab'', Difficulty = 0, ExpiresAt = 0\<rparr>),
      ctx_Done = (\<lambda>k i. False),
      sha256_Sum256 = (\<lambda>m. replicate 32 1),
      powVerify = (\<lambda>k. None),
      puzzleNew = (\<lambda>k. Inr sample_ticket),
      solver_Solve = (\<lambda>k. Inr [[1]]),
      puzzleSubmit = (\<lambda>k. Inr sample_outcome),
      rand_source = (\<lambda>k. 0)\<rparr>"

text \<open>The answer of the server to too many requests, and to an expired login.\<close>

definition err429 :: error where
  "err429 = ApiErr \<lparr>StatusCode = 429, Message = [], Body = []\<rparr>"

definition err401 :: error where
  "err401 = ApiErr \<lparr>StatusCode = 401, Message = [], Body = []\<rparr>"

text \<open>The loops unfold by their defining equations when a run is evaluated.\<close>

declare puzzleNewWithRetry_loop.simps [code] submitWithRetry_loop.simps [code]
  runSolve_loop.simps [code] computePowNonce_loop.simps [code]

text \<open>A refusal of the server with the message "quota exhausted", and the state of the loop
  at the start of the sample run.\<close>

definition err403_quota :: error where
  "err403_quota = ApiErr \<lparr>StatusCode = 403, Message = '' '' @ marker_quota_exhausted, Body = []\<rparr>"

definition sample_state :: loop_state where
  "sample_state = \<lparr>ls_cfg = sample_cfg, ls_client = sample_client, solvedCount = 0, count = 1\<rparr>"

text \<open>
  A round that is not a dry run, followed up to the call of \<^verbatim>\<open>submitWithRetry\<close>: the
  puzzle fetched, the solver's answer, the configuration and the trace at that point, when
  the round gets there (the fetch succeeds and leaves attempts for the day, the solver
  answers, the proof of work is in order).
\<close>

definition round_until_submission ::
  "world \<Rightarrow> loop_state \<Rightarrow> event list
     \<Rightarrow> (puzzleNewResponse \<times> grid \<times> appConfig \<times> event list) option" where
  "round_until_submission w st tr =
     (case puzzleNewWithRetry w (ls_client st)
             (tr @ [Log LogInfo ''fetching puzzle: index=%d/%d''
                      [I (solvedCount st + 1), I (count st)]]) of
        Some (Inr pNew, tr1) \<Rightarrow>
          (case persistCookieIfChanged w (ls_cfg st) (ls_client st) tr1 of
             (perr, cfg1, tr2) \<Rightarrow>
               if pn_DailyRemaining pNew \<le> 0 then None
               else
                 (let tr3 = tr2 @ [Log LogInfo
                        ''puzzle fetched: puzzleId=%s, remainingAttempts=%d, dailyRemaining=%d/%d''
                        [S (puzzle_ID (Puzzle pNew)), I (pn_RemainingAttempts pNew),
                         I (pn_DailyRemaining pNew), I (pn_DailyLimit pNew)]]
                  in case solver_Solve w (nth_call is_Solve tr3) of
                       Inr answer \<Rightarrow>
                         (case ensurePow w (ls_client st)
                                 (tr3 @ [Solve (Puzzle pNew), Log LogOk ''AI solved (elapsed %s)'' [T]]) of
                            Some (None, tr4) \<Rightarrow>
                              (case persistCookieIfChanged w cfg1 (ls_client st) tr4 of
                                 (perr2, cfg2, tr5) \<Rightarrow>
                                   Some (pNew, answer, cfg2,
                                         tr5 @ [Log LogInfo ''submitting: puzzleId=%s''
                                                  [S (puzzle_ID (Puzzle pNew))]]))
                          | _ \<Rightarrow> None)
                     | Inl err \<Rightarrow> None))
      | _ \<Rightarrow> None)"

(*THEOREMS*)

section \<open>Properties of the proof-of-work search\<close>

subsection \<open>The nibble test\<close>








subsection \<open>The search\<close>






text \<open>
  Claim C9.  For a difficulty below 0 or above 64, \<^verbatim>\<open>computePowNonce\<close> returns the
  error "invalid difficulty: d" whatever the challenge, the digest function and the
  state of the context are, and it has computed no digest.
\<close>

theorem computePowNonce_invalid_difficulty:
  "difficulty < 0 \<or> difficulty > 64 \<Longrightarrow>
   computePowNonce ctx_done Sum256 challenge difficulty =
     Some (Inl (ErrorsNew (''invalid difficulty: '' @ Itoa difficulty)), 0)"
  by (simp add: computePowNonce_def)

theorem computePowNonce_invalid_difficulty_witness:
  "computePowNonce (\<lambda>i. False) (\<lambda>m. replicate 32 0) ''ab'' 65 =
     Some (Inl (ErrorsNew ''invalid difficulty: 65''), 0)
   \<and> computePowNonce (\<lambda>i. False) (\<lambda>m. replicate 32 0) ''ab'' (- 1) =
     Some (Inl (ErrorsNew ''invalid difficulty: -1''), 0)"
  using computePowNonce_invalid_difficulty [of 65 "\<lambda>i. False" "\<lambda>m. replicate 32 0" "''ab''"]
    computePowNonce_invalid_difficulty [of "- 1" "\<lambda>i. False" "\<lambda>m. replicate 32 0" "''ab''"]
  by (simp add: Itoa_def digits10.simps digit_char_def)

section \<open>Properties of the retry loops\<close>

text \<open>
  After \<open>n\<close> answers 429 in a row and then any other answer, the loop has made \<open>n + 1\<close>
  calls, has slept once after each of the \<open>n\<close> refusals and returns that other answer,
  be it a result or an error; for \<open>n = 0\<close>: an answer other than 429 is returned at once.
\<close>

lemma puzzleNewWithRetry_loop_rounds:
  "\<forall>i<n. \<exists>e. puzzleNew w (nth_call is_PuzzleNew tr + i) = Inl e \<and> is429 e \<Longrightarrow>
   (case puzzleNew w (nth_call is_PuzzleNew tr + n) of Inl e \<Rightarrow> \<not> is429 e | Inr p \<Rightarrow> True) \<Longrightarrow>
   puzzleNewWithRetry_loop w c backoff tr =
     Some (puzzleNew w (nth_call is_PuzzleNew tr + n),
           tr @ retry_rounds (PuzzleNew c) ''rate limited (429), waiting %s...'' backoff n
              @ [PuzzleNew c])"
proof (induction n arbitrary: backoff tr)
  case 0
  then show ?case
    by (subst puzzleNewWithRetry_loop.simps) (auto simp: is429_def Let_def split: sum.splits)
next
  case (Suc n)
  let ?k = "nth_call is_PuzzleNew tr"
  let ?tr = "tr @ [PuzzleNew c, Log LogWarn ''rate limited (429), waiting %s...'' [D backoff], Sleep backoff]"
  from Suc.prems(1) obtain e where e: "puzzleNew w ?k = Inl e" "is429 e" by force
  have k: "nth_call is_PuzzleNew ?tr = Suc ?k" by (simp add: nth_call_def)
  have a: "\<forall>i<n. \<exists>e. puzzleNew w (nth_call is_PuzzleNew ?tr + i) = Inl e \<and> is429 e"
    unfolding k using Suc.prems(1) by auto
  have b: "case puzzleNew w (nth_call is_PuzzleNew ?tr + n) of Inl e \<Rightarrow> \<not> is429 e | Inr p \<Rightarrow> True"
    unfolding k using Suc.prems(2) by simp
  have step: "puzzleNewWithRetry_loop w c backoff tr =
      puzzleNewWithRetry_loop w c (next_backoff backoff) ?tr"
    using e by (subst puzzleNewWithRetry_loop.simps) (simp add: is429_def Let_def next_backoff_def)
  show ?case
    unfolding step Suc.IH [OF a b] k by simp
qed

lemma submitWithRetry_loop_rounds:
  "\<forall>i<n. \<exists>e. puzzleSubmit w (nth_call is_PuzzleSubmit tr + i) = Inl e \<and> is429 e \<Longrightarrow>
   (case puzzleSubmit w (nth_call is_PuzzleSubmit tr + n) of Inl e \<Rightarrow> \<not> is429 e | Inr p \<Rightarrow> True) \<Longrightarrow>
   submitWithRetry_loop w c pid ans backoff tr =
     Some (puzzleSubmit w (nth_call is_PuzzleSubmit tr + n),
           tr @ retry_rounds (PuzzleSubmit c pid ans) ''submit rate limited (429), waiting %s...'' backoff n
              @ [PuzzleSubmit c pid ans])"
proof (induction n arbitrary: backoff tr)
  case 0
  then show ?case
    by (subst submitWithRetry_loop.simps) (auto simp: is429_def Let_def split: sum.splits)
next
  case (Suc n)
  let ?k = "nth_call is_PuzzleSubmit tr"
  let ?tr = "tr @ [PuzzleSubmit c pid ans, Log LogWarn ''submit rate limited (429), waiting %s...'' [D backoff], Sleep backoff]"
  from Suc.prems(1) obtain e where e: "puzzleSubmit w ?k = Inl e" "is429 e" by force
  have k: "nth_call is_PuzzleSubmit ?tr = Suc ?k" by (simp add: nth_call_def)
  have a: "\<forall>i<n. \<exists>e. puzzleSubmit w (nth_call is_PuzzleSubmit ?tr + i) = Inl e \<and> is429 e"
    unfolding k using Suc.prems(1) by auto
  have b: "case puzzleSubmit w (nth_call is_PuzzleSubmit ?tr + n) of Inl e \<Rightarrow> \<not> is429 e | Inr p \<Rightarrow> True"
    unfolding k using Suc.prems(2) by simp
  have step: "submitWithRetry_loop w c pid ans backoff tr =
      submitWithRetry_loop w c pid ans (next_backoff backoff) ?tr"
    using e by (subst submitWithRetry_loop.simps) (simp add: is429_def Let_def next_backoff_def)
  show ?case
    unfolding step Suc.IH [OF a b] k by simp
qed

lemma sleeps_append: "sleeps (xs @ ys) = sleeps xs @ sleeps ys"
  by (simp add: sleeps_def)

lemma sleeps_retry_rounds:
  "\<not> is_Sleep call \<Longrightarrow>
   sleeps (retry_rounds call fmt backoff n) = map (\<lambda>i. (next_backoff ^^ i) backoff) [0..<n]"
proof (induction n arbitrary: backoff)
  case 0
  then show ?case by (simp add: sleeps_def)
next
  case (Suc n)
  have "map (\<lambda>i. (next_backoff ^^ i) backoff) [0..<Suc n] =
      backoff # map (\<lambda>i. (next_backoff ^^ i) (next_backoff backoff)) [0..<n]"
    by (simp add: upt_conv_Cons map_Suc_upt [symmetric] funpow_swap1 del: upt_Suc)
  moreover have "sleeps (retry_rounds call fmt backoff (Suc n)) =
      backoff # sleeps (retry_rounds call fmt (next_backoff backoff) n)"
    using Suc.prems by (cases call) (simp_all add: sleeps_def)
  ultimately show ?case using Suc by simp
qed

lemma calls_retry_rounds:
  "P call \<Longrightarrow> \<not> is_Log call \<Longrightarrow> \<not> is_Sleep call \<Longrightarrow> \<forall>e. is_Log e \<or> is_Sleep e \<longrightarrow> \<not> P e \<Longrightarrow>
   nth_call P (retry_rounds call fmt backoff n) = n"
  by (induction n arbitrary: backoff) (simp_all add: nth_call_def)

text \<open>The values of \<open>backoff\<close>: 2 s, 4 s, 8 s, 16 s, then 32 s for ever.\<close>

lemma backoff_values:
  "(next_backoff ^^ i) (2 * Second) = (if i < 4 then 2 ^ (i + 1) else 32) * Second"
proof (induction i)
  case 0
  then show ?case by simp
next
  case (Suc i)
  have s: "(next_backoff ^^ Suc i) (2 * Second) = next_backoff ((next_backoff ^^ i) (2 * Second))"
    by simp
  consider "i = 0" | "i = 1" | "i = 2" | "i = 3" | "4 \<le> i" by linarith
  then show ?case
    unfolding s Suc by cases (simp_all add: next_backoff_def Second_def)
qed

text \<open>
  Claim C1.  Five answers 429 in a row, then a success: the wrappers of the fetch and of
  the submission make six calls and return the result, and they sleep 2 s, 4 s, 8 s, 16 s
  and then 32 s, which is more than 30 s.
\<close>

theorem retry_fifth_sleep_is_32s:
  "map_option (\<lambda>(r, tr). (r, nth_call is_PuzzleNew tr, sleeps tr))
     (puzzleNewWithRetry
        (sample_world\<lparr>puzzleNew := (\<lambda>k. if k < 5 then Inl err429 else Inr sample_ticket)\<rparr>)
        sample_client [])
   = Some (Inr sample_ticket, 6,
           [2 * Second, 4 * Second, 8 * Second, 16 * Second, 32 * Second])
   \<and> map_option (\<lambda>(r, tr). (r, nth_call is_PuzzleSubmit tr, sleeps tr))
     (submitWithRetry
        (sample_world\<lparr>puzzleSubmit := (\<lambda>k. if k < 5 then Inl err429 else Inr sample_outcome)\<rparr>)
        sample_client ''p1'' [[1]] [])
   = Some (Inr sample_outcome, 6,
           [2 * Second, 4 * Second, 8 * Second, 16 * Second, 32 * Second])
   \<and> 30 * Second < 32 * Second"
  by code_simp

section \<open>Properties of the classification of errors\<close>

subsection \<open>Trimming white space keeps the markers\<close>

lemma sublist_TrimLeftSpace:
  assumes "m \<noteq> []" "\<forall>w\<in>set space_encodings. hd m \<notin> set w"
  shows "sublist m s \<Longrightarrow> sublist m (TrimLeftSpace s)"
proof (induction s rule: TrimLeftSpace.induct)
  case (1 s)
  show ?case
  proof (cases "List.find (\<lambda>w. prefix w s) space_encodings")
    case None
    then show ?thesis using 1 by (subst TrimLeftSpace.simps) simp
  next
    case (Some w)
    then have w: "w \<in> set space_encodings" and p: "prefix w s"
      by (auto simp: find_Some_iff)
    from 1(2) obtain a b where s: "s = a @ m @ b" by (auto simp: sublist_def)
    from p obtain r where r: "s = w @ r" by (auto simp: prefix_def)
    have "length w \<le> length a"
    proof (rule ccontr)
      assume "\<not> length w \<le> length a"
      then have l: "length a < length w" by simp
      have "w ! length a = s ! length a" using r l by (simp add: nth_append)
      also have "\<dots> = hd m" using s assms(1) by (simp add: nth_append hd_conv_nth)
      finally have "hd m \<in> set w" using l by (metis nth_mem)
      then show False using w assms(2) by auto
    qed
    then have "drop (length w) s = drop (length w) a @ m @ b" using s by simp
    then have "sublist m (drop (length w) s)" by (auto simp: sublist_def)
    then have "sublist m (TrimLeftSpace (drop (length w) s))" using 1(1) Some by simp
    then show ?thesis using Some by (subst TrimLeftSpace.simps) simp
  qed
qed

lemma sublist_TrimRightSpace:
  assumes "m \<noteq> []" "\<forall>w\<in>set space_encodings. last m \<notin> set w"
  shows "sublist m s \<Longrightarrow> sublist m (TrimRightSpace s)"
proof (induction s rule: TrimRightSpace.induct)
  case (1 s)
  show ?case
  proof (cases "List.find (\<lambda>w. suffix w s) space_encodings")
    case None
    then show ?thesis using 1 by (subst TrimRightSpace.simps) simp
  next
    case (Some w)
    then have w: "w \<in> set space_encodings" and p: "suffix w s"
      by (auto simp: find_Some_iff)
    from 1(2) obtain a b where s: "s = a @ m @ b" by (auto simp: sublist_def)
    from p obtain r where r: "s = r @ w" by (auto simp: suffix_def)
    have "length w \<le> length b"
    proof (rule ccontr)
      assume "\<not> length w \<le> length b"
      then have l: "length b < length w" by simp
      define i where "i = length a + (length m - 1)"
      have lm: "0 < length m" using assms(1) by simp
      have lr: "length r + length w = length a + length m + length b"
        using s r by (metis length_append add.assoc)
      have ri: "length r \<le> i" and iw: "i - length r < length w"
        using l lm lr unfolding i_def by linarith+
      have "s ! i = (m @ b) ! (length m - 1)"
        unfolding s i_def by (rule nth_append_length_plus)
      also have "\<dots> = last m" using assms(1) lm by (simp add: nth_append last_conv_nth)
      finally have "last m = s ! i" by simp
      also have "\<dots> = w ! (i - length r)" unfolding r using ri by (simp add: nth_append)
      finally have "last m \<in> set w" using iw by simp
      then show False using w assms(2) by auto
    qed
    then have "take (length s - length w) s = a @ m @ take (length b - length w) b" using s by simp
    then have "sublist m (take (length s - length w) s)" by (auto simp: sublist_def)
    then have "sublist m (TrimRightSpace (take (length s - length w) s))" using 1(1) Some by simp
    then show ?thesis using Some by (subst TrimRightSpace.simps) simp
  qed
qed

lemma Contains_TrimSpace:
  assumes "m \<noteq> []" "\<forall>w\<in>set space_encodings. hd m \<notin> set w \<and> last m \<notin> set w"
    and "Contains s m"
  shows "Contains (TrimSpace s) m"
  using assms unfolding Contains_def TrimSpace_def
  by (auto intro!: sublist_TrimRightSpace sublist_TrimLeftSpace)

lemma TrimLeftSpace_suffix: "suffix (TrimLeftSpace s) s"
proof (induction s rule: TrimLeftSpace.induct)
  case (1 s)
  show ?case
  proof (cases "List.find (\<lambda>w. prefix w s) space_encodings")
    case None
    then show ?thesis by (subst TrimLeftSpace.simps) simp
  next
    case (Some w)
    then have "suffix (TrimLeftSpace (drop (length w) s)) (drop (length w) s)" using 1 by simp
    then have "suffix (TrimLeftSpace (drop (length w) s)) s"
      using suffix_drop suffix_order.trans by blast
    then show ?thesis using Some by (subst TrimLeftSpace.simps) simp
  qed
qed

lemma TrimRightSpace_prefix: "prefix (TrimRightSpace s) s"
proof (induction s rule: TrimRightSpace.induct)
  case (1 s)
  show ?case
  proof (cases "List.find (\<lambda>w. suffix w s) space_encodings")
    case None
    then show ?thesis by (subst TrimRightSpace.simps) simp
  next
    case (Some w)
    then have "prefix (TrimRightSpace (take (length s - length w) s)) (take (length s - length w) s)"
      using 1 by simp
    then have "prefix (TrimRightSpace (take (length s - length w) s)) s"
      using take_is_prefix prefix_order.trans by blast
    then show ?thesis using Some by (subst TrimRightSpace.simps) simp
  qed
qed

lemma Contains_TrimSpace_D: "Contains (TrimSpace s) m \<Longrightarrow> Contains s m"
  unfolding Contains_def TrimSpace_def
  by (meson TrimLeftSpace_suffix TrimRightSpace_prefix prefix_imp_sublist suffix_imp_sublist
      sublist_order.order_trans)

lemma marker_ends:
  "marker_quota_exhausted \<noteq> []" "marker_completed \<noteq> []" "marker_come_back_tomorrow \<noteq> []"
  "\<forall>w\<in>set space_encodings. hd marker_quota_exhausted \<notin> set w \<and> last marker_quota_exhausted \<notin> set w"
  "\<forall>w\<in>set space_encodings. hd marker_completed \<notin> set w \<and> last marker_completed \<notin> set w"
  "\<forall>w\<in>set space_encodings. hd marker_come_back_tomorrow \<notin> set w \<and> last marker_come_back_tomorrow \<notin> set w"
  by (simp_all add: marker_quota_exhausted_def marker_completed_def marker_come_back_tomorrow_def
      space_encodings_def)

text \<open>Trimming the message neither hides nor creates an occurrence of a marker.\<close>

lemma isDailyExhaustedError_iff:
  "isDailyExhaustedError err =
     (\<exists>ae. errors_As_apiError err = Some ae \<and> StatusCode ae = 403 \<and>
        (Contains (Message ae) marker_quota_exhausted \<or> Contains (Message ae) marker_completed \<or>
         Contains (Message ae) marker_come_back_tomorrow))"
  unfolding isDailyExhaustedError_def Let_def
  by (auto split: option.splits dest: Contains_TrimSpace_D
      intro: Contains_TrimSpace [OF marker_ends(1) marker_ends(4)]
        Contains_TrimSpace [OF marker_ends(2) marker_ends(5)]
        Contains_TrimSpace [OF marker_ends(3) marker_ends(6)])


section \<open>The trace only grows\<close>






text \<open>
  Claim C5.  The loop is about to start a round and the fetch fails with an error of
  status 403 whose message contains one of the three markers: the loop returns \<^verbatim>\<open>nil\<close>,
  and all it does after the fetch is to log "stopping: daily limit exhausted"; there is
  no prompt and no new login.  In the example the process ends with status 0.
\<close>

theorem fetch_quota_exhausted_stops_loop:
  assumes "solvedCount st < count st"
    and "puzzleNewWithRetry w (ls_client st)
      (tr @ [Log LogInfo ''fetching puzzle: index=%d/%d'' [I (solvedCount st + 1), I (count st)]])
      = Some (Inl err, tr1)"
    and "errors_As_apiError err = Some ae" and "StatusCode ae = 403"
    and "Contains (Message ae) marker_quota_exhausted \<or> Contains (Message ae) marker_completed \<or>
         Contains (Message ae) marker_come_back_tomorrow"
  shows "runSolve_loop w dryRun autoLoop st tr =
    Some (None, tr1 @ [Log LogWarn ''stopping: daily limit exhausted'' []])"
proof -
  have "isDailyExhaustedError err"
    using assms(3-5) by (auto simp: isDailyExhaustedError_iff)
  then have "runSolve_round w dryRun autoLoop st tr =
      Some (Return None, tr1 @ [Log LogWarn ''stopping: daily limit exhausted'' []])"
    using assms(2) by (simp add: runSolve_round_def Let_def)
  then show ?thesis
    using assms(1) by (subst runSolve_loop.simps) simp
qed

theorem fetch_quota_exhausted_stops_loop_witness:
  "runSolve_loop (sample_world\<lparr>puzzleNew := (\<lambda>k. Inl err403_quota)\<rparr>) False False sample_state [] =
     Some (None,
       [Log LogInfo ''fetching puzzle: index=%d/%d'' [I 1, I 1], PuzzleNew sample_client,
        Log LogWarn ''stopping: daily limit exhausted'' []])
   \<and> map_option (\<lambda>(code, tr). (code, nth_call is_Prompt tr, last tr))
       (main_exit (sample_world\<lparr>puzzleNew := (\<lambda>k. Inl err403_quota)\<rparr>) [''solve''])
     = Some (0, 0, Log LogWarn ''stopping: daily limit exhausted'' [])"
proof -
  let ?w = "sample_world\<lparr>puzzleNew := (\<lambda>k. Inl err403_quota)\<rparr>"
  let ?ae = "\<lparr>StatusCode = 403, Message = '' '' @ marker_quota_exhausted, Body = []\<rparr>"
  have c: "solvedCount sample_state < count sample_state" by code_simp
  have f: "puzzleNewWithRetry ?w (ls_client sample_state)
      ([] @ [Log LogInfo ''fetching puzzle: index=%d/%d''
               [I (solvedCount sample_state + 1), I (count sample_state)]])
      = Some (Inl err403_quota,
          [Log LogInfo ''fetching puzzle: index=%d/%d'' [I 1, I 1], PuzzleNew sample_client])"
    by code_simp
  have a: "errors_As_apiError err403_quota = Some ?ae" by (simp add: err403_quota_def)
  have s: "StatusCode ?ae = 403" by simp
  have m: "Contains (Message ?ae) marker_quota_exhausted \<or> Contains (Message ?ae) marker_completed \<or>
         Contains (Message ?ae) marker_come_back_tomorrow"
    by code_simp
  have e: "map_option (\<lambda>(code, tr). (code, nth_call is_Prompt tr, last tr)) (main_exit ?w [''solve''])
     = Some (0, 0, Log LogWarn ''stopping: daily limit exhausted'' [])"
    by code_simp
  show ?thesis
    using fetch_quota_exhausted_stops_loop [OF c f a s m, of False False] e by simp
qed

section \<open>Properties of the refresh of the proof of work\<close>

lemma time_Sub_less_window: "(time_Sub t u < powRefreshWindow) = (t - u < 120 * Second)"
proof -
  have m: "(120::int) * 1000000000 < 2 ^ 63 - 1" and n: "- (2 ^ 63) < (120::int) * 1000000000" by simp_all
  show ?thesis
    unfolding time_Sub_def Let_def powRefreshWindow_def maxDuration_def minDuration_def Second_def
    using m n by (cases "t - u > 2 ^ 63 - 1"; cases "t - u < - (2 ^ 63)") (simp_all only: if_True if_False, linarith+)
qed

lemma ensurePow_refresh_requests_challenge:
  "ensurePow_refresh w c tr = Some (r, tr1) \<Longrightarrow>
   \<exists>ev. tr1 = tr @ [Log LogInfo ''PoW needs refresh, solving...'' [], PowChallenge c] @ ev"
  by (auto simp: ensurePow_refresh_def Let_def split: sum.splits option.splits prod.splits)

text \<open>
  Claim C6, as stated, fails: the status says that the proof of work is valid and gives no
  time of expiry (0); the time of expiry minus the current time is far below 120 s, yet
  nothing is refreshed.
\<close>

theorem ensurePow_skips_refresh_without_expiry:
  "HasValidPow \<lparr>HasValidPow = True, PowExpiresAt = 0, HasOngoingChallenge = False\<rparr> \<and>
   UnixMilli 0 - 1700000000 * Second < 120 * Second \<and>
   ensurePow
     (sample_world\<lparr>powStatus := (\<lambda>k. Inr \<lparr>HasValidPow = True, PowExpiresAt = 0,
                                           HasOngoingChallenge = False\<rparr>),
                   time_Now := (\<lambda>k. 1700000000 * Second)\<rparr>)
     sample_client []
   = Some (None, [PowStatus sample_client, Now, Log LogOk ''PoW valid, no refresh needed'' []])"
  by code_simp

text \<open>
  Claim C6, amended.  \<^verbatim>\<open>ensurePow\<close> reads the status and the clock.  It refreshes (logs,
  requests a challenge, searches the nonce, has it verified) exactly when the status is
  not valid, or it is valid with a time of expiry above 0 that is less than 120 s after
  the current time.  Otherwise (valid and no time of expiry, or valid and expiring in
  120 s or more) it returns at once.
\<close>

theorem ensurePow_refresh_condition:
  assumes "powStatus w (nth_call is_PowStatus tr) = Inr st"
  shows "ensurePow w c tr =
    (if \<not> HasValidPow st \<or>
        (0 < PowExpiresAt st \<and>
         UnixMilli (PowExpiresAt st) - time_Now w (nth_call is_Now tr) < 120 * Second)
     then ensurePow_refresh w c (tr @ [PowStatus c, Now])
     else Some (None, tr @ [PowStatus c, Now, Log LogOk ''PoW valid, no refresh needed'' []]))"
proof -
  have k: "nth_call is_Now (tr @ [PowStatus c]) = nth_call is_Now tr"
    by (simp add: nth_call_def)
  define P where "P = (0 < PowExpiresAt st \<and>
    UnixMilli (PowExpiresAt st) - time_Now w (nth_call is_Now tr) < 120 * Second)"
  have e: "ensurePow w c tr =
    (if \<not> (if HasValidPow st \<and> P then True else \<not> HasValidPow st)
     then Some (None, ((tr @ [PowStatus c]) @ [Now]) @ [Log LogOk ''PoW valid, no refresh needed'' []])
     else ensurePow_refresh w c ((tr @ [PowStatus c]) @ [Now]))"
    unfolding P_def
    by (simp only: ensurePow_def Let_def assms sum.case k time_Sub_less_window)
  have a: "(tr @ [PowStatus c]) @ [Now] = tr @ [PowStatus c, Now]" by simp
  have b: "(tr @ [PowStatus c, Now]) @ [Log LogOk ''PoW valid, no refresh needed'' []] =
    tr @ [PowStatus c, Now, Log LogOk ''PoW valid, no refresh needed'' []]" by simp
  show ?thesis
    unfolding e a b P_def [symmetric]
    by (cases "HasValidPow st"; cases P) (simp_all only: if_True if_False
        simp_thms)
qed

theorem ensurePow_refresh_condition_witness:
  "ensurePow
     (sample_world\<lparr>powStatus := (\<lambda>k. Inr \<lparr>HasValidPow = True, PowExpiresAt = 1700000120000,
                                           HasOngoingChallenge = False\<rparr>)\<rparr>)
     sample_client []
   = Some (None, [PowStatus sample_client, Now, Log LogOk ''PoW valid, no refresh needed'' []])
   \<and> ensurePow
     (sample_world\<lparr>powStatus := (\<lambda>k. Inr \<lparr>HasValidPow = True, PowExpiresAt = 1700000119999,
                                           HasOngoingChallenge = False\<rparr>)\<rparr>)
     sample_client []
   = Some (None, [PowStatus sample_client, Now,
        Log LogInfo ''PoW needs refresh, solving...'' [], PowChallenge sample_client,
        PowNonce ''ab'' 0, Log LogOk ''PoW found nonce=%s (elapsed %s)'' [S ''0'', T],
        PowVerify sample_client ''ab'' ''0'', Log LogOk ''PoW verified'' []])
   \<and> ensurePow
     (sample_world\<lparr>powStatus := (\<lambda>k. Inr \<lparr>HasValidPow = False, PowExpiresAt = 1700000120000,
                                           HasOngoingChallenge = False\<rparr>)\<rparr>)
     sample_client []
   = Some (None, [PowStatus sample_client, Now,
        Log LogInfo ''PoW needs refresh, solving...'' [], PowChallenge sample_client,
        PowNonce ''ab'' 0, Log LogOk ''PoW found nonce=%s (elapsed %s)'' [S ''0'', T],
        PowVerify sample_client ''ab'' ''0'', Log LogOk ''PoW verified'' []])"
proof -
  let ?st1 = "\<lparr>HasValidPow = True, PowExpiresAt = 1700000120000, HasOngoingChallenge = False\<rparr>"
  let ?st2 = "\<lparr>HasValidPow = True, PowExpiresAt = 1700000119999, HasOngoingChallenge = False\<rparr>"
  let ?st3 = "\<lparr>HasValidPow = False, PowExpiresAt = 1700000120000, HasOngoingChallenge = False\<rparr>"
  let ?w1 = "sample_world\<lparr>powStatus := (\<lambda>k. Inr ?st1)\<rparr>"
  let ?w2 = "sample_world\<lparr>powStatus := (\<lambda>k. Inr ?st2)\<rparr>"
  let ?w3 = "sample_world\<lparr>powStatus := (\<lambda>k. Inr ?st3)\<rparr>"
  have s1: "powStatus ?w1 (nth_call is_PowStatus []) = Inr ?st1" by simp
  have s2: "powStatus ?w2 (nth_call is_PowStatus []) = Inr ?st2" by simp
  have s3: "powStatus ?w3 (nth_call is_PowStatus []) = Inr ?st3" by simp
  have n: "time_Now sample_world (nth_call is_Now []) = 1700000000 * Second"
    by (simp add: sample_world_def)
  have r2: "ensurePow_refresh ?w2 sample_client ([] @ [PowStatus sample_client, Now]) =
    Some (None, [PowStatus sample_client, Now,
        Log LogInfo ''PoW needs refresh, solving...'' [], PowChallenge sample_client,
        PowNonce ''ab'' 0, Log LogOk ''PoW found nonce=%s (elapsed %s)'' [S ''0'', T],
        PowVerify sample_client ''ab'' ''0'', Log LogOk ''PoW verified'' []])"
    by code_simp
  have r3: "ensurePow_refresh ?w3 sample_client ([] @ [PowStatus sample_client, Now]) =
    Some (None, [PowStatus sample_client, Now,
        Log LogInfo ''PoW needs refresh, solving...'' [], PowChallenge sample_client,
        PowNonce ''ab'' 0, Log LogOk ''PoW found nonce=%s (elapsed %s)'' [S ''0'', T],
        PowVerify sample_client ''ab'' ''0'', Log LogOk ''PoW verified'' []])"
    by code_simp
  show ?thesis
    using ensurePow_refresh_condition [OF s1, of sample_client]
      ensurePow_refresh_condition [OF s2, of sample_client]
      ensurePow_refresh_condition [OF s3, of sample_client] n r2 r3
    by (simp add: UnixMilli_def Second_def)
qed

section \<open>Properties of the interactive login\<close>

lemma nth_call_Nil [simp]: "nth_call P [] = 0"
  by (simp add: nth_call_def)

lemma nth_call_Cons [simp]: "nth_call P (e # tr) = (if P e then Suc (nth_call P tr) else nth_call P tr)"
  by (simp add: nth_call_def)

lemma nth_call_append [simp]: "nth_call P (xs @ ys) = nth_call P xs + nth_call P ys"
  by (simp add: nth_call_def)

text \<open>What \<open>prompt_and_save\<close> adds to the trace: one prompt, then at most a write of the
  configuration and a log line.\<close>

lemma prompt_and_save_events:
  "\<exists>pev. snd (prompt_and_save w cfg tr) = tr @ Prompt # pev \<and>
     nth_call is_Prompt pev = 0 \<and> nth_call is_AuthMe pev = 0"
  by (auto simp: prompt_and_save_def Let_def split: sum.splits option.splits)

text \<open>The second attempt: one prompt and at most one validation, the last thing it does;
  the answer to that validation decides the result.\<close>

lemma login_second_attempt_events:
  assumes "login_second_attempt w cfg1 tr = (res, tr1)"
  shows "\<exists>ev. tr1 = tr @ Prompt # ev \<and> nth_call is_Prompt ev = 0 \<and>
    (nth_call is_AuthMe ev = 0 \<and> (\<exists>err. res = Inl err)
     \<or> nth_call is_AuthMe ev = 1 \<and> is_AuthMe (last ev) \<and>
       (case authMe w (nth_call is_AuthMe tr) of
          Inr me \<Rightarrow> \<exists>cfg2. res = Inr cfg2
        | Inl err \<Rightarrow>
            res = Inl (if isAuthError err
                       then ErrorsNew ''login still invalid: please check cookie/token'' else err)))"
proof -
  obtain r3 tr3 where p: "prompt_and_save w cfg1 tr = (r3, tr3)" by (cases "prompt_and_save w cfg1 tr")
  obtain pev where pev: "tr3 = tr @ Prompt # pev" "nth_call is_Prompt pev = 0" "nth_call is_AuthMe pev = 0"
    using prompt_and_save_events [of w cfg1 tr] p by auto
  show ?thesis
  proof (cases r3)
    case (Inl perr)
    then have "res = Inl perr" "tr1 = tr3"
      using assms p by (simp_all add: login_second_attempt_def)
    then show ?thesis using pev by auto
  next
    case (Inr cfg2)
    show ?thesis
    proof (cases "newAPIClient w cfg2")
      case (Inl err2)
      then have "res = Inl err2" "tr1 = tr3"
        using assms p Inr by (simp_all add: login_second_attempt_def)
      then show ?thesis using pev by auto
    next
      case c: (Inr client2)
      have k: "nth_call is_AuthMe tr3 = nth_call is_AuthMe tr" using pev by simp
      have t: "tr1 = tr @ Prompt # (pev @ [AuthMe client2])"
        using assms p Inr c pev(1)
        by (auto simp: login_second_attempt_def Let_def split: sum.splits if_splits)
      have r: "(case authMe w (nth_call is_AuthMe tr) of
          Inr me \<Rightarrow> \<exists>cfg2. res = Inr cfg2
        | Inl err \<Rightarrow>
            res = Inl (if isAuthError err
                       then ErrorsNew ''login still invalid: please check cookie/token'' else err))"
        using assms p Inr c k
        by (auto simp: login_second_attempt_def Let_def split: sum.splits if_splits)
      have "nth_call is_Prompt (pev @ [AuthMe client2]) = 0"
        "nth_call is_AuthMe (pev @ [AuthMe client2]) = 1" "is_AuthMe (last (pev @ [AuthMe client2]))"
        using pev(2,3) by simp_all
      then show ?thesis
        using t r by blast
    qed
  qed
qed

text \<open>
  Claim C7.  Take a run of \<^verbatim>\<open>ensureLoginInteractive\<close> that adds the events \<open>ev\<close> to the
  trace and returns \<open>res\<close>.  (1) If the stored cookie is empty (after trimming), the run
  starts with a prompt; (2) if it is not, it does not.  (3) If the first validation
  fails with an auth error, one more prompt follows.  (4) If the first validation fails
  with another error, that error is returned, the validation is the last thing the run
  did, and no prompt follows it.  (5) If the second validation, the one made after that
  further prompt, fails with an auth error again, the run returns "login still invalid";
  (6) if it fails with another error, that error is returned; in both cases nothing
  follows the validation.
\<close>

theorem ensureLoginInteractive_recovery:
  assumes run: "ensureLoginInteractive w cfg0 tr = (res, tr @ ev)"
  shows "(TrimSpace (Cookie cfg0) = [] \<longrightarrow> take 1 ev = [Prompt]) \<and>
    (TrimSpace (Cookie cfg0) \<noteq> [] \<longrightarrow> take 1 ev \<noteq> [Prompt]) \<and>
    (1 \<le> nth_call is_AuthMe ev \<and> authMe w (nth_call is_AuthMe tr) = Inl err1 \<and> isAuthError err1 \<longrightarrow>
       nth_call is_Prompt ev = (if TrimSpace (Cookie cfg0) = [] then 2 else 1)) \<and>
    (1 \<le> nth_call is_AuthMe ev \<and> authMe w (nth_call is_AuthMe tr) = Inl err1 \<and> \<not> isAuthError err1 \<longrightarrow>
       res = Inl err1 \<and> nth_call is_AuthMe ev = 1 \<and> is_AuthMe (last ev) \<and>
       nth_call is_Prompt ev = (if TrimSpace (Cookie cfg0) = [] then 1 else 0)) \<and>
    (nth_call is_AuthMe ev = 2 \<and> authMe w (Suc (nth_call is_AuthMe tr)) = Inl err2 \<and> isAuthError err2 \<longrightarrow>
       res = Inl (ErrorsNew ''login still invalid: please check cookie/token'') \<and> is_AuthMe (last ev)) \<and>
    (nth_call is_AuthMe ev = 2 \<and> authMe w (Suc (nth_call is_AuthMe tr)) = Inl err2 \<and> \<not> isAuthError err2 \<longrightarrow>
       res = Inl err2 \<and> is_AuthMe (last ev))"
proof -
  define E where "E = (TrimSpace (Cookie cfg0) = [])"
  define cfg where "cfg = cfg0\<lparr>Cookie := TrimSpace (Cookie cfg0)\<rparr>"
  define s1 where "s1 = (if Cookie cfg = [] then prompt_and_save w cfg tr else (Inr cfg, tr))"
  obtain r1 t1 where s1: "s1 = (r1, t1)" by (cases s1)
  have CE: "(Cookie cfg = []) = E" by (simp add: cfg_def E_def)
  obtain e1 where e1: "t1 = tr @ e1" "nth_call is_Prompt e1 = (if E then 1 else 0)"
    "nth_call is_AuthMe e1 = 0" "E \<longrightarrow> take 1 e1 = [Prompt]" "\<not> E \<longrightarrow> e1 = []"
  proof (cases E)
    case True
    then have "snd (prompt_and_save w cfg tr) = t1" using s1 CE by (simp add: s1_def)
    then obtain pev where "t1 = tr @ Prompt # pev" "nth_call is_Prompt pev = 0" "nth_call is_AuthMe pev = 0"
      using prompt_and_save_events [of w cfg tr] by auto
    then show ?thesis using True that [of "Prompt # pev"] by simp
  next
    case False
    then have "t1 = tr" using s1 CE by (simp add: s1_def)
    then show ?thesis using False that [of "[]"] by simp
  qed
  have unf: "ensureLoginInteractive w cfg0 tr =
    (case r1 of
       Inl err \<Rightarrow> (Inl err, t1)
     | Inr cfg1 \<Rightarrow>
         (case newAPIClient w cfg1 of
            Inl err \<Rightarrow> (Inl err, t1)
          | Inr client1 \<Rightarrow>
              (case authMe w (nth_call is_AuthMe t1) of
                 Inr me \<Rightarrow> (Inr cfg1, t1 @ [AuthMe client1])
               | Inl err \<Rightarrow>
                   if \<not> isAuthError err then (Inl err, t1 @ [AuthMe client1])
                   else login_second_attempt w cfg1 (t1 @ [AuthMe client1]))))"
    unfolding ensureLoginInteractive_def Let_def cfg_def [symmetric] s1_def [symmetric] s1
    by (simp only: prod.case)
  have k: "nth_call is_AuthMe t1 = nth_call is_AuthMe tr" using e1(1,3) by simp
  text \<open>The run ended before any validation.\<close>
  have early: ?thesis if "ev = e1" "\<exists>err. res = Inl err"
    using that e1 unfolding E_def by auto
  text \<open>The run ended with the first validation.\<close>
  have first: ?thesis
    if "ev = e1 @ [AuthMe c1]"
      and "case authMe w (nth_call is_AuthMe tr) of Inr me \<Rightarrow> True
           | Inl err \<Rightarrow> \<not> isAuthError err \<and> res = Inl err" for c1
  proof -
    have a: "nth_call is_AuthMe ev = 1" "nth_call is_Prompt ev = (if E then 1 else 0)"
      "is_AuthMe (last ev)" "E \<longrightarrow> take 1 ev = [Prompt]" "\<not> E \<longrightarrow> take 1 ev \<noteq> [Prompt]"
      using that(1) e1 by (auto simp: take_Suc_conv_app_nth)
    show ?thesis
      using a that(2) unfolding E_def by (auto split: sum.splits)
  qed
  show ?thesis
  proof (cases r1)
    case (Inl err)
    then have "res = Inl err" "tr @ ev = t1" using run unf by simp_all
    then have "ev = e1" "\<exists>err. res = Inl err" using e1(1) by simp_all
    then show ?thesis by (rule early)
  next
    case (Inr cfg1)
    show ?thesis
    proof (cases "newAPIClient w cfg1")
      case (Inl err)
      then have "res = Inl err" "tr @ ev = t1" using run unf Inr by simp_all
      then have "ev = e1" "\<exists>err. res = Inl err" using e1(1) by simp_all
      then show ?thesis by (rule early)
    next
      case c: (Inr c1)
      show ?thesis
      proof (cases "authMe w (nth_call is_AuthMe tr)")
        case me: (Inr me)
        then have "tr @ ev = t1 @ [AuthMe c1]" using run unf Inr c k by simp
        then have "ev = e1 @ [AuthMe c1]" using e1(1) by simp
        moreover have "case authMe w (nth_call is_AuthMe tr) of Inr me \<Rightarrow> True
           | Inl err \<Rightarrow> \<not> isAuthError err \<and> res = Inl err"
          using me by simp
        ultimately show ?thesis by (rule first)
      next
        case err: (Inl err)
        show ?thesis
        proof (cases "isAuthError err")
          case False
          then have "res = Inl err" "tr @ ev = t1 @ [AuthMe c1]" using run unf Inr c k err by simp_all
          then have "ev = e1 @ [AuthMe c1]" "res = Inl err" using e1(1) by simp_all
          then have "ev = e1 @ [AuthMe c1]" "case authMe w (nth_call is_AuthMe tr) of Inr me \<Rightarrow> True
             | Inl err \<Rightarrow> \<not> isAuthError err \<and> res = Inl err"
            using err False by simp_all
          then show ?thesis by (rule first)
        next
          case True
          then have l: "login_second_attempt w cfg1 (t1 @ [AuthMe c1]) = (res, tr @ ev)"
            using run unf Inr c k err by simp
          obtain ev2 where ev2: "tr @ ev = (t1 @ [AuthMe c1]) @ Prompt # ev2"
            "nth_call is_Prompt ev2 = 0"
            "nth_call is_AuthMe ev2 = 0 \<and> (\<exists>err. res = Inl err)
               \<or> nth_call is_AuthMe ev2 = 1 \<and> is_AuthMe (last ev2) \<and>
                 (case authMe w (nth_call is_AuthMe (t1 @ [AuthMe c1])) of
                    Inr me \<Rightarrow> \<exists>cfg2. res = Inr cfg2
                  | Inl err \<Rightarrow>
                      res = Inl (if isAuthError err
                        then ErrorsNew ''login still invalid: please check cookie/token'' else err))"
            using login_second_attempt_events [OF l] by blast
          have ev: "ev = e1 @ AuthMe c1 # Prompt # ev2" using ev2(1) e1(1) by simp
          have k2: "nth_call is_AuthMe (t1 @ [AuthMe c1]) = Suc (nth_call is_AuthMe tr)"
            using k by simp
          have np: "nth_call is_Prompt ev = (if E then 2 else 1)"
            using ev e1(2) ev2(2) by simp
          have tk: "E \<longrightarrow> take 1 ev = [Prompt]" "\<not> E \<longrightarrow> take 1 ev \<noteq> [Prompt]"
            using ev e1(4,5) by (auto simp: take_Suc_conv_app_nth)
          from ev2(3) show ?thesis
          proof
            assume a: "nth_call is_AuthMe ev2 = 0 \<and> (\<exists>err. res = Inl err)"
            then have "nth_call is_AuthMe ev = 1" using ev e1(3) by simp
            then show ?thesis
              using np tk err True unfolding E_def by auto
          next
            assume a: "nth_call is_AuthMe ev2 = 1 \<and> is_AuthMe (last ev2) \<and>
                 (case authMe w (nth_call is_AuthMe (t1 @ [AuthMe c1])) of
                    Inr me \<Rightarrow> \<exists>cfg2. res = Inr cfg2
                  | Inl err \<Rightarrow>
                      res = Inl (if isAuthError err
                        then ErrorsNew ''login still invalid: please check cookie/token'' else err))"
            then have nv: "nth_call is_AuthMe ev = 2" using ev e1(3) by simp
            have "ev2 \<noteq> []" using a by auto
            then have la: "is_AuthMe (last ev)" using ev a by simp
            show ?thesis
              using np tk err True nv la a unfolding E_def k2
              by (auto split: sum.splits)
          qed
        qed
      qed
    qed
  qed
qed

theorem ensureLoginInteractive_recovery_witness:
  "take 1 (snd (ensureLoginInteractive (sample_world\<lparr>authMe := (\<lambda>k. Inl err401)\<rparr>)
       (sample_cfg\<lparr>Cookie := '' ''\<rparr>) [])) = [Prompt]
   \<and> nth_call is_Prompt (snd (ensureLoginInteractive (sample_world\<lparr>authMe := (\<lambda>k. Inl err401)\<rparr>)
       (sample_cfg\<lparr>Cookie := '' ''\<rparr>) [])) = 2
   \<and> fst (ensureLoginInteractive (sample_world\<lparr>authMe := (\<lambda>k. Inl err401)\<rparr>)
       (sample_cfg\<lparr>Cookie := '' ''\<rparr>) [])
     = Inl (ErrorsNew ''login still invalid: please check cookie/token'')
   \<and> take 1 (snd (ensureLoginInteractive
       (sample_world\<lparr>authMe := (\<lambda>k. Inl (ErrorsNew ''request failed''))\<rparr>) sample_cfg [])) \<noteq> [Prompt]
   \<and> fst (ensureLoginInteractive
       (sample_world\<lparr>authMe := (\<lambda>k. Inl (ErrorsNew ''request failed''))\<rparr>) sample_cfg [])
     = Inl (ErrorsNew ''request failed'')
   \<and> nth_call is_Prompt (snd (ensureLoginInteractive
       (sample_world\<lparr>authMe := (\<lambda>k. Inl (ErrorsNew ''request failed''))\<rparr>) sample_cfg [])) = 0
   \<and> fst (ensureLoginInteractive
       (sample_world\<lparr>authMe := (\<lambda>k. if k = 0 then Inl err401 else Inl (ErrorsNew ''request failed''))\<rparr>)
       sample_cfg [])
     = Inl (ErrorsNew ''request failed'')"
proof -
  let ?wd = "sample_world\<lparr>authMe := (\<lambda>k. Inl err401)\<rparr>"
  let ?cd = "sample_cfg\<lparr>Cookie := '' ''\<rparr>"
  let ?wc = "sample_world\<lparr>authMe := (\<lambda>k. Inl (ErrorsNew ''request failed''))\<rparr>"
  let ?we = "sample_world\<lparr>authMe := (\<lambda>k. if k = 0 then Inl err401 else Inl (ErrorsNew ''request failed''))\<rparr>"
  let ?rd = "ensureLoginInteractive ?wd ?cd []"
  let ?rc = "ensureLoginInteractive ?wc sample_cfg []"
  let ?re = "ensureLoginInteractive ?we sample_cfg []"
  have rd: "?rd = (fst ?rd, [] @ snd ?rd)" and rc: "?rc = (fst ?rc, [] @ snd ?rc)"
    and re: "?re = (fst ?re, [] @ snd ?re)" by simp_all
  have a401: "isAuthError err401" and nf: "\<not> isAuthError (ErrorsNew ''request failed'')" by code_simp+
  have cd: "TrimSpace (Cookie ?cd) = []" and cs: "TrimSpace (Cookie sample_cfg) \<noteq> []" by code_simp+
  have nd: "nth_call is_AuthMe (snd ?rd) = 2" and nc: "nth_call is_AuthMe (snd ?rc) = 1"
    and ne: "nth_call is_AuthMe (snd ?re) = 2" by code_simp+
  have ad: "authMe ?wd (nth_call is_AuthMe []) = Inl err401"
    "authMe ?wd (Suc (nth_call is_AuthMe [])) = Inl err401"
    and ac: "authMe ?wc (nth_call is_AuthMe []) = Inl (ErrorsNew ''request failed'')"
    and ae: "authMe ?we (Suc (nth_call is_AuthMe [])) = Inl (ErrorsNew ''request failed'')"
    by simp_all
  note d = ensureLoginInteractive_recovery [OF rd, of err401 err401]
  note c = ensureLoginInteractive_recovery [OF rc, of "ErrorsNew ''request failed''" err401]
  note e = ensureLoginInteractive_recovery [OF re, of err401 "ErrorsNew ''request failed''"]
  have 1: "take 1 (snd ?rd) = [Prompt]" using d cd by blast
  have 2: "nth_call is_Prompt (snd ?rd) = 2" using d cd nd ad(1) a401 by auto
  have 3: "fst ?rd = Inl (ErrorsNew ''login still invalid: please check cookie/token'')"
    using d nd ad(2) a401 by blast
  have 4: "take 1 (snd ?rc) \<noteq> [Prompt]" using c cs by blast
  have 5: "fst ?rc = Inl (ErrorsNew ''request failed'')"
    and 6: "nth_call is_Prompt (snd ?rc) = 0" using c cs nc ac nf by auto
  have 7: "fst ?re = Inl (ErrorsNew ''request failed'')" using e ne ae nf by blast
  show ?thesis using 1 2 3 4 5 6 7 by blast
qed

end
